theory Spec2Isabelle
  imports Complex_Main "HOL-Library.AList" "HOL-Library.Multiset"
begin

section \<open>Data model (lib/types.ts)\<close>

text \<open>
  The argument type of \<open>uploadVideo\<close>, \<open>Omit<VideoMetadata, 'id' | 'shareUrl'>\<close>, is the
  parent record; \<open>VideoMetadata\<close> extends it by the two omitted fields. The fields \<open>id\<close>
  and \<open>size\<close> of the source are \<open>id_v\<close> and \<open>size_v\<close> here. JavaScript numbers that
  hold measurements are reals, counters are naturals: rounding of doubles is not modelled.
\<close>

record VideoMetadataInput =
  title :: string
  filename :: string
  duration :: real
  size_v :: nat
  createdAt :: string
  thumbnailUrl :: "string option"

record VideoMetadata = VideoMetadataInput +
  id_v :: string
  shareUrl :: string

record CompletionDataPoint =
  timestamp :: string
  watchPercentage :: real
  watchDuration :: real

record VideoAnalytics =
  videoId :: string
  views :: nat
  completionData :: "CompletionDataPoint list"
  averageWatchPercentage :: real
  lastViewed :: "string option"

section \<open>JavaScript objects used as dictionaries\<close>

text \<open>
  The analytics are kept in a plain object, \<open>Record<string, VideoAnalytics>\<close>, read with
  \<open>analytics[videoId]\<close>. An object that \<open>JSON.parse\<close> or a literal creates has
  \<open>Object.prototype\<close> as its prototype, so a key that is not an own property is looked
  up there. \<open>inherited\<close> lists the properties \<open>Object.prototype\<close> has when a page
  starts: built-in functions, and \<open>__proto__\<close>, which reads as \<open>Object.prototype\<close>
  itself.
\<close>

definition inherited :: "string \<Rightarrow> bool" where
  "inherited k =
     (k \<in> set [''constructor'', ''hasOwnProperty'', ''isPrototypeOf'', ''propertyIsEnumerable'',
        ''toLocaleString'', ''toString'', ''valueOf'', ''__defineGetter__'', ''__defineSetter__'',
        ''__lookupGetter__'', ''__lookupSetter__'', ''__proto__''])"

text \<open>
  The value of \<open>obj[key]\<close>: an own property; a built-in function or object inherited from
  \<open>Object.prototype\<close>; the string that \<open>Object.prototype.lastViewed\<close> holds once a view
  call on the key \<open>__proto__\<close> has assigned it (\<open>polluted\<close> below); or \<open>undefined\<close>.
  Such a call also leaves \<open>NaN\<close> in \<open>Object.prototype.views\<close>; \<open>NaN\<close> is falsy, as is
  the empty string, and both count as \<open>undefined\<close> here, the source only testing the
  value for truth. Every other value is truthy.
\<close>

datatype 'a property = Own 'a | Builtin | Text string | Undefined

definition getProperty :: "string option \<Rightarrow> (string \<times> 'a) list \<Rightarrow> string \<Rightarrow> 'a property" where
  "getProperty polluted obj k =
     (case map_of obj k of
        Some v \<Rightarrow> Own v
      | None \<Rightarrow>
          if inherited k then Builtin
          else (case polluted of
                  None \<Rightarrow> Undefined
                | Some t \<Rightarrow> if k = ''lastViewed'' \<and> t \<noteq> [] then Text t else Undefined))"

text \<open>
  The assignment \<open>obj[key] = value\<close>: it creates or replaces an own property, in property
  order, except for the key \<open>__proto__\<close> on an object without such an own property,
  where it replaces the prototype of the object and creates no property.
\<close>

definition setProperty :: "(string \<times> 'a) list \<Rightarrow> string \<Rightarrow> 'a \<Rightarrow> (string \<times> 'a) list" where
  "setProperty obj k v =
     (if k = ''__proto__'' \<and> map_of obj k = None then obj else AList.update k v obj)"

section \<open>The backing store (localStorage)\<close>

text \<open>
  \<open>localStorage\<close> holds three kinds of keys: \<open>screen_recorder_videos\<close> (the JSON of the
  video list), \<open>screen_recorder_analytics\<close> (the JSON of the analytics object, its own
  properties in order) and one key \<open>video_blob_<id>\<close> per payload. \<open>None\<close> is an absent
  key. JSON.stringify followed by JSON.parse is the identity on these values. The
  fourth field is not in \<open>localStorage\<close>: it is the value of
  \<open>Object.prototype.lastViewed\<close> in the page, which \<open>incrementView\<close> can assign.
\<close>

record browser =
  videos_item :: "VideoMetadata list option"
  blob_items :: "(string \<times> string) list"
  analytics_item :: "(string \<times> VideoAnalytics) list option"
  prototype_lastViewed :: "string option"

text \<open>
  \<open>QuotaExceededError\<close> is the DOMException of \<open>localStorage.setItem\<close>;
  \<open>CapacityExceeded\<close> is the \<open>Error('Storage quota exceeded. Please delete some videos
  manually.')\<close> thrown by \<open>uploadVideo\<close>; \<open>FileReaderError\<close> is the rejection of
  \<open>blobToBase64\<close>; \<open>TypeError\<close> is what reading a property of \<open>undefined\<close>, or
  assigning a property of a string in a module (strict code), throws. An operation
  yields its outcome together with the state it leaves behind, since writes made before
  a throw persist.
\<close>

datatype error = QuotaExceededError | CapacityExceeded | FileReaderError | TypeError

datatype 'a outcome = Returned 'a | Raised error

text \<open>
  Whether \<open>setItem\<close> accepts a write is decided by the browser, not by the source: the
  operations take that decision as the parameter \<open>quota\<close>, a predicate on the state the
  write would produce. A rejected write throws and leaves the store as it was.
  \<open>removeItem\<close> never throws.
\<close>

definition setVideosItem :: "(browser \<Rightarrow> bool) \<Rightarrow> VideoMetadata list \<Rightarrow> browser \<Rightarrow> unit outcome \<times> browser" where
  "setVideosItem quota vs s =
     (let s' = s\<lparr>videos_item := Some vs\<rparr>
      in if quota s' then (Returned (), s') else (Raised QuotaExceededError, s))"

definition setBlobItem :: "(browser \<Rightarrow> bool) \<Rightarrow> string \<Rightarrow> string \<Rightarrow> browser \<Rightarrow> unit outcome \<times> browser" where
  "setBlobItem quota i b s =
     (let s' = s\<lparr>blob_items := AList.update i b (blob_items s)\<rparr>
      in if quota s' then (Returned (), s') else (Raised QuotaExceededError, s))"

definition removeBlobItem :: "string \<Rightarrow> browser \<Rightarrow> browser" where
  "removeBlobItem i s = s\<lparr>blob_items := AList.delete i (blob_items s)\<rparr>"

definition setAnalyticsItem :: "(browser \<Rightarrow> bool) \<Rightarrow> (string \<times> VideoAnalytics) list \<Rightarrow> browser \<Rightarrow> unit outcome \<times> browser" where
  "setAnalyticsItem quota al s =
     (let s' = s\<lparr>analytics_item := Some al\<rparr>
      in if quota s' then (Returned (), s') else (Raised QuotaExceededError, s))"

section \<open>StorageService (lib/storage.ts)\<close>

subsection \<open>Lookups\<close>

definition getVideos :: "browser \<Rightarrow> VideoMetadata list" where
  "getVideos s = (case videos_item s of None \<Rightarrow> [] | Some vs \<Rightarrow> vs)"

definition getVideo :: "string \<Rightarrow> browser \<Rightarrow> VideoMetadata option" where
  "getVideo i s = List.find (\<lambda>v. id_v v = i) (getVideos s)"

definition getVideoBlob :: "string \<Rightarrow> browser \<Rightarrow> string option" where
  "getVideoBlob i s = map_of (blob_items s) i"

definition getAllAnalytics :: "browser \<Rightarrow> (string \<times> VideoAnalytics) list" where
  "getAllAnalytics s = (case analytics_item s of None \<Rightarrow> [] | Some al \<Rightarrow> al)"

text \<open>
  \<open>analytics[videoId] || null\<close>: \<open>Undefined\<close> is the answer \<open>null\<close>; an inherited member
  is truthy and is returned as it is.
\<close>

definition getAnalytics :: "string \<Rightarrow> browser \<Rightarrow> VideoAnalytics property" where
  "getAnalytics i s = getProperty (prototype_lastViewed s) (getAllAnalytics s) i"

subsection \<open>Analytics\<close>

definition initializeAnalytics :: "(browser \<Rightarrow> bool) \<Rightarrow> string \<Rightarrow> browser \<Rightarrow> unit outcome \<times> browser" where
  "initializeAnalytics quota i s =
     setAnalyticsItem quota
       (setProperty (getAllAnalytics s) i
          \<lparr>videoId = i, views = 0, completionData = [], averageWatchPercentage = 0,
           lastViewed = None\<rparr>) s"

text \<open>
  \<open>now\<close> is the value of \<open>new Date().toISOString()\<close> at the call. On an inherited
  member the two assignments go to the built-in object: for the key \<open>__proto__\<close> that is
  \<open>Object.prototype\<close>, whose \<open>lastViewed\<close> every object then inherits; the object that
  is written back has the own properties it had. A string has no assignable property.
\<close>

definition incrementView :: "(browser \<Rightarrow> bool) \<Rightarrow> string \<Rightarrow> string \<Rightarrow> browser \<Rightarrow> unit outcome \<times> browser" where
  "incrementView quota now i s =
     (let analytics = getAllAnalytics s
      in case getProperty (prototype_lastViewed s) analytics i of
           Undefined \<Rightarrow> (Returned (), s)
         | Own a \<Rightarrow>
             setAnalyticsItem quota
               (AList.update i (a\<lparr>views := views a + 1, lastViewed := Some now\<rparr>) analytics) s
         | Builtin \<Rightarrow>
             setAnalyticsItem quota analytics
               (if i = ''__proto__'' then s\<lparr>prototype_lastViewed := Some now\<rparr> else s)
         | Text t \<Rightarrow> (Raised TypeError, s))"

text \<open>
  An inherited member has no \<open>completionData\<close>: \<open>push\<close> is read from \<open>undefined\<close>.
\<close>

definition recordCompletion ::
  "(browser \<Rightarrow> bool) \<Rightarrow> string \<Rightarrow> string \<Rightarrow> real \<Rightarrow> real \<Rightarrow> browser \<Rightarrow> unit outcome \<times> browser" where
  "recordCompletion quota now i p d s =
     (let analytics = getAllAnalytics s
      in case getProperty (prototype_lastViewed s) analytics i of
           Undefined \<Rightarrow> (Returned (), s)
         | Own a \<Rightarrow>
             (let points = completionData a @
                     [\<lparr>timestamp = now, watchPercentage = p, watchDuration = d\<rparr>];
                  total = foldl (\<lambda>sum x. sum + watchPercentage x) 0 points
              in setAnalyticsItem quota
                   (AList.update i
                      (a\<lparr>completionData := points,
                         averageWatchPercentage := total / real (length points)\<rparr>)
                      analytics) s)
         | Builtin \<Rightarrow> (Raised TypeError, s)
         | Text t \<Rightarrow> (Raised TypeError, s))"

definition deleteAnalytics :: "(browser \<Rightarrow> bool) \<Rightarrow> string \<Rightarrow> browser \<Rightarrow> unit outcome \<times> browser" where
  "deleteAnalytics quota i s = setAnalyticsItem quota (AList.delete i (getAllAnalytics s)) s"

subsection \<open>Videos\<close>

definition deleteVideo :: "(browser \<Rightarrow> bool) \<Rightarrow> string \<Rightarrow> browser \<Rightarrow> unit outcome \<times> browser" where
  "deleteVideo quota i s =
     (case setVideosItem quota (filter (\<lambda>v. id_v v \<noteq> i) (getVideos s)) s of
        (Raised e, s1) \<Rightarrow> (Raised e, s1)
      | (Returned _, s1) \<Rightarrow> deleteAnalytics quota i (removeBlobItem i s1))"

text \<open>The \<open>forEach\<close> over \<open>videosToDelete\<close>: a throw of \<open>deleteAnalytics\<close> ends the loop.\<close>

fun deleteOldVideos :: "(browser \<Rightarrow> bool) \<Rightarrow> VideoMetadata list \<Rightarrow> browser \<Rightarrow> unit outcome \<times> browser" where
  "deleteOldVideos quota [] s = (Returned (), s)"
| "deleteOldVideos quota (video # rest) s =
     (case deleteAnalytics quota (id_v video) (removeBlobItem (id_v video) s) of
        (Raised e, s1) \<Rightarrow> (Raised e, s1)
      | (Returned _, s1) \<Rightarrow> deleteOldVideos quota rest s1)"

text \<open>
  \<open>getTime\<close> is \<open>new Date(createdAt).getTime()\<close>; \<open>None\<close> is the \<open>NaN\<close> of a string that
  is not a date, and the store accepts any string as \<open>createdAt\<close>. The comparator
  \<open>time b - time a\<close> orders by descending time; with a \<open>NaN\<close> operand its result is
  \<open>NaN\<close>, which \<open>Array.prototype.sort\<close> takes as \<open>+0\<close>.
\<close>

definition compareFn :: "(string \<Rightarrow> int option) \<Rightarrow> VideoMetadata \<Rightarrow> VideoMetadata \<Rightarrow> int" where
  "compareFn getTime a b =
     (case getTime (createdAt b) of
        None \<Rightarrow> 0
      | Some tb \<Rightarrow> (case getTime (createdAt a) of None \<Rightarrow> 0 | Some ta \<Rightarrow> tb - ta))"

text \<open>
  \<open>Array.prototype.sort\<close> is stable. When every date parses the comparator is
  consistent and every stable sort gives the same order, the one of \<open>sort_key\<close> on the
  negated times (\<open>arraySort_dated\<close> below). With an unparseable date the comparator
  need not be consistent, and ECMAScript then leaves the order to the engine: the
  insertion sort here is one permitted order, and always a rearrangement of the array.
\<close>

fun insertSorted :: "('a \<Rightarrow> 'a \<Rightarrow> int) \<Rightarrow> 'a \<Rightarrow> 'a list \<Rightarrow> 'a list" where
  "insertSorted compare x [] = [x]"
| "insertSorted compare x (y # ys) =
     (if compare x y \<le> 0 then x # y # ys else y # insertSorted compare x ys)"

definition arraySort :: "('a \<Rightarrow> 'a \<Rightarrow> int) \<Rightarrow> 'a list \<Rightarrow> 'a list" where
  "arraySort compare xs = foldr (insertSorted compare) xs []"

definition cleanupOldVideos ::
  "(browser \<Rightarrow> bool) \<Rightarrow> (string \<Rightarrow> int option) \<Rightarrow> nat \<Rightarrow> browser \<Rightarrow> unit outcome \<times> browser" where
  "cleanupOldVideos quota getTime keepCount s =
     (let videos = getVideos s
      in if length videos \<le> keepCount then (Returned (), s)
         else
           (let sorted = arraySort (compareFn getTime) videos;
                videosToDelete = drop keepCount sorted
            in case deleteOldVideos quota videosToDelete s of
                 (Raised e, s1) \<Rightarrow> (Raised e, s1)
               | (Returned _, s1) \<Rightarrow> setVideosItem quota (take keepCount sorted) s1))"

text \<open>
  The body of the \<open>try\<close> block of \<open>uploadVideo\<close>; the retry inside the \<open>catch\<close> block is
  the same three writes in the same order.
\<close>

definition storeVideo ::
  "(browser \<Rightarrow> bool) \<Rightarrow> VideoMetadata \<Rightarrow> string \<Rightarrow> browser \<Rightarrow> VideoMetadata outcome \<times> browser" where
  "storeVideo quota videoData base64 s =
     (case setVideosItem quota (getVideos s @ [videoData]) s of
        (Raised e, s1) \<Rightarrow> (Raised e, s1)
      | (Returned _, s1) \<Rightarrow>
          (case setBlobItem quota (id_v videoData) base64 s1 of
             (Raised e, s2) \<Rightarrow> (Raised e, s2)
           | (Returned _, s2) \<Rightarrow>
               (case initializeAnalytics quota (id_v videoData) s2 of
                  (Raised e, s3) \<Rightarrow> (Raised e, s3)
                | (Returned _, s3) \<Rightarrow> (Returned videoData, s3))))"

text \<open>
  \<open>`${Date.now()}-${Math.random().toString(36).substr(2, 9)}`\<close>: \<open>ms\<close> is the clock
  reading in decimal digits and \<open>rnd\<close> the digits kept of the random number.
\<close>

definition generateId :: "string \<Rightarrow> string \<Rightarrow> string" where
  "generateId ms rnd = ms @ ''-'' @ rnd"

definition makeVideoData :: "string \<Rightarrow> VideoMetadataInput \<Rightarrow> VideoMetadata" where
  "makeVideoData i metadata =
     \<lparr>title = title metadata, filename = filename metadata, duration = duration metadata,
      size_v = size_v metadata, createdAt = createdAt metadata,
      thumbnailUrl = thumbnailUrl metadata, id_v = i, shareUrl = ''/watch/'' @ i\<rparr>"

text \<open>
  \<open>ms\<close> and \<open>rnd\<close> are what the clock and the random number generator give
  \<open>generateId\<close> in this call, and \<open>blobToBase64\<close> is the FileReader encoding, \<open>None\<close>
  when the reader fails.
\<close>

definition uploadVideo ::
  "(browser \<Rightarrow> bool) \<Rightarrow> (string \<Rightarrow> int option) \<Rightarrow> ('b \<Rightarrow> string option) \<Rightarrow> string \<Rightarrow> string \<Rightarrow> 'b \<Rightarrow>
   VideoMetadataInput \<Rightarrow> browser \<Rightarrow> VideoMetadata outcome \<times> browser" where
  "uploadVideo quota getTime blobToBase64 ms rnd file metadata s =
     (let i = generateId ms rnd
      in case blobToBase64 file of
        None \<Rightarrow> (Raised FileReaderError, s)
      | Some base64 \<Rightarrow>
          (let videoData = makeVideoData i metadata
           in case storeVideo quota videoData base64 s of
                (Returned v, s1) \<Rightarrow> (Returned v, s1)
              | (Raised e, s1) \<Rightarrow>
                  if e = QuotaExceededError then
                    (case cleanupOldVideos quota getTime 3 s1 of
                       (Raised e2, s2) \<Rightarrow> (Raised e2, s2)
                     | (Returned _, s2) \<Rightarrow>
                         (case storeVideo quota videoData base64 s2 of
                            (Returned v, s3) \<Rightarrow> (Returned v, s3)
                          | (Raised _, s3) \<Rightarrow> (Raised CapacityExceeded, s3)))
                  else (Raised e, s1)))"

section \<open>Sequences of calls and the notions the claims use\<close>

text \<open>
  A caller that issues several view or completion calls one after the other; a call that
  throws ends the sequence, as an uncaught exception ends the caller. A view call is the
  pair of the id and the time of the call, a completion call the time, the percentage
  and the duration.
\<close>

fun incrementViews ::
  "(browser \<Rightarrow> bool) \<Rightarrow> (string \<times> string) list \<Rightarrow> browser \<Rightarrow> unit outcome \<times> browser" where
  "incrementViews quota [] s = (Returned (), s)"
| "incrementViews quota ((i, now) # calls) s =
     (case incrementView quota now i s of
        (Raised e, s1) \<Rightarrow> (Raised e, s1)
      | (Returned _, s1) \<Rightarrow> incrementViews quota calls s1)"

fun recordCompletions ::
  "(browser \<Rightarrow> bool) \<Rightarrow> string \<Rightarrow> (string \<times> real \<times> real) list \<Rightarrow> browser \<Rightarrow>
   unit outcome \<times> browser" where
  "recordCompletions quota i [] s = (Returned (), s)"
| "recordCompletions quota i ((now, p, d) # calls) s =
     (case recordCompletion quota now i p d s of
        (Raised e, s1) \<Rightarrow> (Raised e, s1)
      | (Returned _, s1) \<Rightarrow> recordCompletions quota i calls s1)"

text \<open>The data point \<open>recordCompletion\<close> pushes for one call.\<close>

definition completionPoint :: "string \<times> real \<times> real \<Rightarrow> CompletionDataPoint" where
  "completionPoint c =
     (case c of (now, p, d) \<Rightarrow> \<lparr>timestamp = now, watchPercentage = p, watchDuration = d\<rparr>)"

text \<open>The arithmetic mean in the specification's words: the sum over the count.\<close>

definition mean :: "real list \<Rightarrow> real" where
  "mean ps = sum_list ps / real (length ps)"

text \<open>The record \<open>initializeAnalytics\<close> writes.\<close>

definition zero_analytics :: "string \<Rightarrow> VideoAnalytics" where
  "zero_analytics i =
     \<lparr>videoId = i, views = 0, completionData = [], averageWatchPercentage = 0,
      lastViewed = None\<rparr>"

text \<open>
  The analytics entry persisted for an id: the own property of the stored object, as
  opposed to what the lookup \<open>getAnalytics\<close> answers.
\<close>

definition storedAnalytics :: "string \<Rightarrow> browser \<Rightarrow> VideoAnalytics option" where
  "storedAnalytics i s = map_of (getAllAnalytics s) i"

text \<open>
  The list entries a cleanup evicts, the \<open>videosToDelete\<close> of the source; none when
  \<open>cleanupOldVideos\<close> returns early.
\<close>

definition videosToDelete :: "(string \<Rightarrow> int option) \<Rightarrow> nat \<Rightarrow> browser \<Rightarrow> VideoMetadata list" where
  "videosToDelete getTime keepCount s =
     (let videos = getVideos s
      in if length videos \<le> keepCount then []
         else drop keepCount (arraySort (compareFn getTime) videos))"

text \<open>
  A state in which the store rejects a write of the video list or of the analytics
  object. An operation that ends in such a state with the store's error has stopped at
  the rejected write: nothing was written after it, and nothing was attempted again.
\<close>

abbreviation rejected_write :: "(browser \<Rightarrow> bool) \<Rightarrow> browser \<Rightarrow> bool" where
  "rejected_write quota s \<equiv>
     (\<exists>vs. \<not> quota (s\<lparr>videos_item := Some vs\<rparr>)) \<or>
     (\<exists>al. \<not> quota (s\<lparr>analytics_item := Some al\<rparr>))"

section \<open>A concrete store for running the operations\<close>

text \<open>
  A quota that counts characters, the keys and the text of every stored value (digits and
  JSON punctuation left out), against a capacity; a payload encoding, a table for the
  dates used below, and stores built by the operations themselves in a fresh page.
\<close>

definition video_chars :: "VideoMetadata \<Rightarrow> nat" where
  "video_chars v =
     length (id_v v) + length (title v) + length (filename v) + length (createdAt v) +
     length (shareUrl v) + (case thumbnailUrl v of None \<Rightarrow> 0 | Some u \<Rightarrow> length u)"

definition analytics_chars :: "VideoAnalytics \<Rightarrow> nat" where
  "analytics_chars a =
     length (videoId a) + sum_list (map (\<lambda>x. length (timestamp x)) (completionData a)) +
     (case lastViewed a of None \<Rightarrow> 0 | Some t \<Rightarrow> length t)"

definition storage_chars :: "browser \<Rightarrow> nat" where
  "storage_chars s =
     (case videos_item s of None \<Rightarrow> 0
      | Some vs \<Rightarrow> length ''screen_recorder_videos'' + sum_list (map video_chars vs)) +
     sum_list (map (\<lambda>(i, b). length ''video_blob_'' + length i + length b) (blob_items s)) +
     (case analytics_item s of None \<Rightarrow> 0
      | Some al \<Rightarrow> length ''screen_recorder_analytics'' +
          sum_list (map (\<lambda>(i, a). length i + analytics_chars a) al))"

definition char_quota :: "nat \<Rightarrow> browser \<Rightarrow> bool" where
  "char_quota cap s = (storage_chars s \<le> cap)"

definition empty_storage :: browser where
  "empty_storage =
     \<lparr>videos_item = None, blob_items = [], analytics_item = None, prototype_lastViewed = None\<rparr>"

definition clip :: "string \<Rightarrow> VideoMetadataInput" where
  "clip day = \<lparr>title = ''clip'', filename = ''clip.webm'', duration = 12, size_v = 2048,
     createdAt = day, thumbnailUrl = None\<rparr>"

definition day_number :: "string \<Rightarrow> int option" where
  "day_number day =
     (if day = ''2024-01-01'' then Some 1 else if day = ''2024-01-02'' then Some 2
      else if day = ''2024-01-03'' then Some 3 else if day = ''2024-01-04'' then Some 4
      else if day = ''2024-01-05'' then Some 5 else if day = ''2024-01-06'' then Some 6
      else None)"

definition data_url :: "string \<Rightarrow> string option" where
  "data_url payload = Some (''data:video/webm;base64,'' @ payload)"

text \<open>The record of the upload with clock reading \<open>ms\<close>, random digits \<open>a\<close>.\<close>

definition video :: "string \<Rightarrow> string \<Rightarrow> VideoMetadata" where
  "video ms day = makeVideoData (generateId ms ''a'') (clip day)"

text \<open>
  Three uploads into an empty store of 340 characters; five into one of 500.
\<close>

definition three_videos :: browser where
  "three_videos =
     snd (uploadVideo (char_quota 340) day_number data_url ''3'' ''a'' ''CCCC'' (clip ''2024-01-03'')
       (snd (uploadVideo (char_quota 340) day_number data_url ''2'' ''a'' ''BBBB'' (clip ''2024-01-02'')
         (snd (uploadVideo (char_quota 340) day_number data_url ''1'' ''a'' ''AAAA'' (clip ''2024-01-01'')
           empty_storage)))))"

definition five_videos :: browser where
  "five_videos =
     snd (uploadVideo (char_quota 500) day_number data_url ''5'' ''a'' ''EEEE'' (clip ''2024-01-05'')
       (snd (uploadVideo (char_quota 500) day_number data_url ''4'' ''a'' ''DDDD'' (clip ''2024-01-04'')
         (snd (uploadVideo (char_quota 500) day_number data_url ''3'' ''a'' ''CCCC'' (clip ''2024-01-03'')
           (snd (uploadVideo (char_quota 500) day_number data_url ''2'' ''a'' ''BBBB'' (clip ''2024-01-02'')
             (snd (uploadVideo (char_quota 500) day_number data_url ''1'' ''a'' ''AAAA'' (clip ''2024-01-01'')
               empty_storage)))))))))"

text \<open>
  An upload into an empty store of 70 characters: the list fits, the payload does not.
\<close>

definition after_failed_upload :: browser where
  "after_failed_upload =
     snd (uploadVideo (char_quota 70) day_number data_url ''1'' ''a'' ''AAAA'' (clip ''2024-01-01'')
       empty_storage)"

text \<open>
  Six uploads, one after the other, into an empty store of 650 characters; the first
  three payloads are long. The fourth and the sixth upload meet a full store when they
  write the payload, after the list write was accepted.
\<close>

definition long_payload :: string where
  "long_payload = replicate 100 (CHR ''L'')"

definition three_long_videos :: browser where
  "three_long_videos =
     snd (uploadVideo (char_quota 650) day_number data_url ''3'' ''a'' long_payload (clip ''2024-01-03'')
       (snd (uploadVideo (char_quota 650) day_number data_url ''2'' ''a'' long_payload (clip ''2024-01-02'')
         (snd (uploadVideo (char_quota 650) day_number data_url ''1'' ''a'' long_payload (clip ''2024-01-01'')
           empty_storage)))))"

definition four_uploads :: browser where
  "four_uploads =
     snd (uploadVideo (char_quota 650) day_number data_url ''4'' ''a'' ''DDDD'' (clip ''2024-01-04'')
       three_long_videos)"

definition five_uploads :: browser where
  "five_uploads =
     snd (uploadVideo (char_quota 650) day_number data_url ''5'' ''a'' ''EEEE'' (clip ''2024-01-05'')
       four_uploads)"

definition six_uploads :: browser where
  "six_uploads =
     snd (uploadVideo (char_quota 650) day_number data_url ''6'' ''a'' ''FFFF'' (clip ''2024-01-06'')
       five_uploads)"

text \<open>
  Five uploads into an empty store of 500 characters, the first two with a \<open>createdAt\<close>
  that is not a date.
\<close>

definition undated_videos :: browser where
  "undated_videos =
     snd (uploadVideo (char_quota 500) day_number data_url ''5'' ''a'' ''EEEE'' (clip ''2024-01-05'')
       (snd (uploadVideo (char_quota 500) day_number data_url ''4'' ''a'' ''DDDD'' (clip ''2024-01-04'')
         (snd (uploadVideo (char_quota 500) day_number data_url ''3'' ''a'' ''CCCC'' (clip ''2024-01-03'')
           (snd (uploadVideo (char_quota 500) day_number data_url ''2'' ''a'' ''BBBB'' (clip ''unknown'')
             (snd (uploadVideo (char_quota 500) day_number data_url ''1'' ''a'' ''AAAA'' (clip ''unknown'')
               empty_storage)))))))))"

text \<open>
  Two uploads of a long payload into an empty store of 170 characters: both fail with
  \<open>CapacityExceeded\<close>, and each leaves its record in the list twice. The list of four
  fills the store, and the analytics key was never created.
\<close>

definition four_listed :: browser where
  "four_listed =
     snd (uploadVideo (char_quota 170) day_number data_url ''2'' ''a'' long_payload (clip ''2024-01-02'')
       (snd (uploadVideo (char_quota 170) day_number data_url ''1'' ''a'' long_payload (clip ''2024-01-01'')
         empty_storage)))"

section \<open>Basic facts\<close>

lemmas storage_defs =
  setVideosItem_def setBlobItem_def removeBlobItem_def setAnalyticsItem_def getVideos_def
  getVideo_def getVideoBlob_def getAllAnalytics_def getAnalytics_def initializeAnalytics_def
  incrementView_def recordCompletion_def deleteAnalytics_def deleteVideo_def
  compareFn_def arraySort_def cleanupOldVideos_def storeVideo_def makeVideoData_def
  uploadVideo_def generateId_def
  getProperty_def setProperty_def inherited_def storedAnalytics_def

lemmas sample_defs =
  video_chars_def analytics_chars_def storage_chars_def char_quota_def empty_storage_def
  clip_def day_number_def data_url_def zero_analytics_def completionPoint_def mean_def
  video_def

lemma three_videos_eq:
  "three_videos =
     \<lparr>videos_item = Some [video ''1'' ''2024-01-01'', video ''2'' ''2024-01-02'',
        video ''3'' ''2024-01-03''],
      blob_items = [(''1-a'', ''data:video/webm;base64,AAAA''),
        (''2-a'', ''data:video/webm;base64,BBBB''), (''3-a'', ''data:video/webm;base64,CCCC'')],
      analytics_item = Some [(''1-a'', zero_analytics ''1-a''), (''2-a'', zero_analytics ''2-a''),
        (''3-a'', zero_analytics ''3-a'')],
      prototype_lastViewed = None\<rparr>"
  by (simp add: three_videos_def storage_defs sample_defs Let_def)

lemma five_videos_eq:
  "five_videos =
     \<lparr>videos_item = Some [video ''1'' ''2024-01-01'', video ''2'' ''2024-01-02'',
        video ''3'' ''2024-01-03'', video ''4'' ''2024-01-04'', video ''5'' ''2024-01-05''],
      blob_items = [(''1-a'', ''data:video/webm;base64,AAAA''),
        (''2-a'', ''data:video/webm;base64,BBBB''), (''3-a'', ''data:video/webm;base64,CCCC''),
        (''4-a'', ''data:video/webm;base64,DDDD''), (''5-a'', ''data:video/webm;base64,EEEE'')],
      analytics_item = Some [(''1-a'', zero_analytics ''1-a''), (''2-a'', zero_analytics ''2-a''),
        (''3-a'', zero_analytics ''3-a''), (''4-a'', zero_analytics ''4-a''),
        (''5-a'', zero_analytics ''5-a'')],
      prototype_lastViewed = None\<rparr>"
  by (simp add: five_videos_def storage_defs sample_defs Let_def)

lemma after_failed_upload_eq:
  "after_failed_upload =
     \<lparr>videos_item = Some [video ''1'' ''2024-01-01''], blob_items = [],
      analytics_item = None, prototype_lastViewed = None\<rparr>"
  by (simp add: after_failed_upload_def storage_defs sample_defs Let_def)

lemma three_long_videos_eq:
  "three_long_videos =
     \<lparr>videos_item = Some [video ''1'' ''2024-01-01'', video ''2'' ''2024-01-02'',
        video ''3'' ''2024-01-03''],
      blob_items = [(''1-a'', ''data:video/webm;base64,'' @ long_payload),
        (''2-a'', ''data:video/webm;base64,'' @ long_payload),
        (''3-a'', ''data:video/webm;base64,'' @ long_payload)],
      analytics_item = Some [(''1-a'', zero_analytics ''1-a''), (''2-a'', zero_analytics ''2-a''),
        (''3-a'', zero_analytics ''3-a'')],
      prototype_lastViewed = None\<rparr>"
  by (simp add: three_long_videos_def long_payload_def storage_defs sample_defs Let_def)

lemma four_uploads_eq:
  "four_uploads =
     \<lparr>videos_item = Some [video ''4'' ''2024-01-04'', video ''3'' ''2024-01-03'',
        video ''2'' ''2024-01-02'', video ''4'' ''2024-01-04''],
      blob_items = [(''2-a'', ''data:video/webm;base64,'' @ long_payload),
        (''3-a'', ''data:video/webm;base64,'' @ long_payload),
        (''4-a'', ''data:video/webm;base64,DDDD'')],
      analytics_item = Some [(''2-a'', zero_analytics ''2-a''), (''3-a'', zero_analytics ''3-a''),
        (''4-a'', zero_analytics ''4-a'')],
      prototype_lastViewed = None\<rparr>"
  by (simp add: four_uploads_def three_long_videos_eq long_payload_def storage_defs sample_defs
      Let_def)

lemma five_uploads_eq:
  "five_uploads =
     \<lparr>videos_item = Some [video ''4'' ''2024-01-04'', video ''3'' ''2024-01-03'',
        video ''2'' ''2024-01-02'', video ''4'' ''2024-01-04'', video ''5'' ''2024-01-05''],
      blob_items = [(''2-a'', ''data:video/webm;base64,'' @ long_payload),
        (''3-a'', ''data:video/webm;base64,'' @ long_payload),
        (''4-a'', ''data:video/webm;base64,DDDD''), (''5-a'', ''data:video/webm;base64,EEEE'')],
      analytics_item = Some [(''2-a'', zero_analytics ''2-a''), (''3-a'', zero_analytics ''3-a''),
        (''4-a'', zero_analytics ''4-a''), (''5-a'', zero_analytics ''5-a'')],
      prototype_lastViewed = None\<rparr>"
  by (simp add: five_uploads_def four_uploads_eq long_payload_def storage_defs sample_defs
      Let_def)

lemma six_uploads_eq:
  "six_uploads =
     \<lparr>videos_item = Some [video ''6'' ''2024-01-06'', video ''5'' ''2024-01-05'',
        video ''4'' ''2024-01-04'', video ''6'' ''2024-01-06''],
      blob_items = [(''5-a'', ''data:video/webm;base64,EEEE''),
        (''6-a'', ''data:video/webm;base64,FFFF'')],
      analytics_item = Some [(''5-a'', zero_analytics ''5-a''), (''6-a'', zero_analytics ''6-a'')],
      prototype_lastViewed = None\<rparr>"
  by (simp add: six_uploads_def five_uploads_eq long_payload_def storage_defs sample_defs
      Let_def)

lemma undated_videos_eq:
  "undated_videos =
     \<lparr>videos_item = Some [video ''1'' ''unknown'', video ''2'' ''unknown'',
        video ''3'' ''2024-01-03'', video ''4'' ''2024-01-04'', video ''5'' ''2024-01-05''],
      blob_items = [(''1-a'', ''data:video/webm;base64,AAAA''),
        (''2-a'', ''data:video/webm;base64,BBBB''), (''3-a'', ''data:video/webm;base64,CCCC''),
        (''4-a'', ''data:video/webm;base64,DDDD''), (''5-a'', ''data:video/webm;base64,EEEE'')],
      analytics_item = Some [(''1-a'', zero_analytics ''1-a''), (''2-a'', zero_analytics ''2-a''),
        (''3-a'', zero_analytics ''3-a''), (''4-a'', zero_analytics ''4-a''),
        (''5-a'', zero_analytics ''5-a'')],
      prototype_lastViewed = None\<rparr>"
  by (simp add: undated_videos_def storage_defs sample_defs Let_def)

lemma four_listed_eq:
  "four_listed =
     \<lparr>videos_item = Some [video ''1'' ''2024-01-01'', video ''1'' ''2024-01-01'',
        video ''2'' ''2024-01-02'', video ''2'' ''2024-01-02''],
      blob_items = [], analytics_item = None, prototype_lastViewed = None\<rparr>"
  by (simp add: four_listed_def long_payload_def storage_defs sample_defs Let_def)

lemma setVideosItem_cases:
  "setVideosItem quota vs s = (r, s') \<Longrightarrow>
     (r = Returned () \<and> s' = s\<lparr>videos_item := Some vs\<rparr> \<and> quota s') \<or>
     (r = Raised QuotaExceededError \<and> s' = s \<and> \<not> quota (s\<lparr>videos_item := Some vs\<rparr>))"
  by (auto simp: setVideosItem_def Let_def split: if_splits)

lemma setBlobItem_cases:
  "setBlobItem quota i b s = (r, s') \<Longrightarrow>
     (r = Returned () \<and> s' = s\<lparr>blob_items := AList.update i b (blob_items s)\<rparr> \<and> quota s') \<or>
     (r = Raised QuotaExceededError \<and> s' = s \<and>
      \<not> quota (s\<lparr>blob_items := AList.update i b (blob_items s)\<rparr>))"
  by (auto simp: setBlobItem_def Let_def split: if_splits)

lemma setAnalyticsItem_cases:
  "setAnalyticsItem quota al s = (r, s') \<Longrightarrow>
     (r = Returned () \<and> s' = s\<lparr>analytics_item := Some al\<rparr> \<and> quota s') \<or>
     (r = Raised QuotaExceededError \<and> s' = s \<and> \<not> quota (s\<lparr>analytics_item := Some al\<rparr>))"
  by (auto simp: setAnalyticsItem_def Let_def split: if_splits)

lemma getVideos_simps [simp]:
  "getVideos (s\<lparr>videos_item := Some vs\<rparr>) = vs"
  "getVideos (s\<lparr>blob_items := bs\<rparr>) = getVideos s"
  "getVideos (s\<lparr>analytics_item := x\<rparr>) = getVideos s"
  by (simp_all add: getVideos_def)

lemma getAllAnalytics_simps [simp]:
  "getAllAnalytics (s\<lparr>analytics_item := Some al\<rparr>) = al"
  "getAllAnalytics (s\<lparr>blob_items := bs\<rparr>) = getAllAnalytics s"
  "getAllAnalytics (s\<lparr>videos_item := y\<rparr>) = getAllAnalytics s"
  by (simp_all add: getAllAnalytics_def)

lemma getVideo_simps [simp]:
  "getVideo i (s\<lparr>blob_items := bs\<rparr>) = getVideo i s"
  "getVideo i (s\<lparr>analytics_item := x\<rparr>) = getVideo i s"
  by (simp_all add: getVideo_def)

lemma getVideoBlob_simps [simp]:
  "getVideoBlob i (s\<lparr>videos_item := y\<rparr>) = getVideoBlob i s"
  "getVideoBlob i (s\<lparr>analytics_item := x\<rparr>) = getVideoBlob i s"
  "getVideoBlob i (s\<lparr>blob_items := bs\<rparr>) = map_of bs i"
  by (simp_all add: getVideoBlob_def)

lemma storedAnalytics_simps [simp]:
  "storedAnalytics i (s\<lparr>videos_item := y\<rparr>) = storedAnalytics i s"
  "storedAnalytics i (s\<lparr>blob_items := bs\<rparr>) = storedAnalytics i s"
  "storedAnalytics i (s\<lparr>analytics_item := Some al\<rparr>) = map_of al i"
  by (simp_all add: storedAnalytics_def)

lemma find_filter_other:
  "i \<noteq> j \<Longrightarrow>
   List.find (\<lambda>v. f v = j) (filter (\<lambda>v. f v \<noteq> i) xs) = List.find (\<lambda>v. f v = j) xs"
  by (induction xs) auto

lemma find_filter_same: "List.find (\<lambda>v. f v = i) (filter (\<lambda>v. f v \<noteq> i) xs) = None"
  by (induction xs) auto

text \<open>
  The three ways \<open>deleteVideo\<close> can end: the list write is rejected and nothing has
  changed; the analytics write is rejected after the record and the blob are gone; or
  all three representations are removed.
\<close>

lemma deleteVideo_cases:
  "deleteVideo quota i s = (r, s') \<Longrightarrow>
     (r = Raised QuotaExceededError \<and> s' = s) \<or>
     (r = Raised QuotaExceededError \<and>
        s' = s\<lparr>videos_item := Some (filter (\<lambda>v. id_v v \<noteq> i) (getVideos s)),
               blob_items := AList.delete i (blob_items s)\<rparr>) \<or>
     (r = Returned () \<and>
        s' = s\<lparr>videos_item := Some (filter (\<lambda>v. id_v v \<noteq> i) (getVideos s)),
               blob_items := AList.delete i (blob_items s),
               analytics_item := Some (AList.delete i (getAllAnalytics s))\<rparr>)"
  unfolding deleteVideo_def deleteAnalytics_def removeBlobItem_def
  by (auto split: prod.splits outcome.splits dest!: setVideosItem_cases setAnalyticsItem_cases)

lemma deleteAnalytics_cases:
  "deleteAnalytics quota i s = (r, s') \<Longrightarrow>
     (r = Returned () \<and> s' = s\<lparr>analytics_item := Some (AList.delete i (getAllAnalytics s))\<rparr>) \<or>
     (r = Raised QuotaExceededError \<and> s' = s)"
  unfolding deleteAnalytics_def by (auto dest!: setAnalyticsItem_cases)




lemma getProperty_Own [simp]: "getProperty t al k = Own v \<longleftrightarrow> map_of al k = Some v"
  by (auto simp: getProperty_def split: option.splits)

lemma getProperty_not_own:
  "getProperty t al k = Undefined \<or> getProperty t al k = Builtin \<or> getProperty t al k = Text x
   \<Longrightarrow> map_of al k = None"
  by (auto simp: getProperty_def split: option.splits if_splits)

lemma getProperty_plain:
  "map_of al k = None \<Longrightarrow> \<not> inherited k \<Longrightarrow> k \<noteq> ''lastViewed'' \<Longrightarrow>
   getProperty t al k = Undefined"
  by (simp add: getProperty_def split: option.splits)

lemma setProperty_map_of:
  "k \<noteq> ''__proto__'' \<Longrightarrow> map_of (setProperty al k v) = (map_of al)(k \<mapsto> v)"
  by (simp add: setProperty_def AList.update_conv')

lemma setProperty_other: "j \<noteq> k \<Longrightarrow> map_of (setProperty al k v) j = map_of al j"
  by (simp add: setProperty_def AList.update_conv')

lemma generateId_not_inherited: "\<not> inherited (generateId ms rnd)"
proof
  assume "inherited (generateId ms rnd)"
  then have "CHR ''-'' \<notin> set (generateId ms rnd)"
    by (auto simp: inherited_def)
  then show False by (simp add: generateId_def)
qed

lemma generateId_not_proto: "generateId ms rnd \<noteq> ''__proto__''"
  using generateId_not_inherited [of ms rnd] by (auto simp: inherited_def)

lemma getAnalytics_Own: "getAnalytics i s = Own a \<longleftrightarrow> storedAnalytics i s = Some a"
  by (simp add: getAnalytics_def storedAnalytics_def)

lemma getAnalytics_not_own:
  "getAnalytics i s = Undefined \<or> getAnalytics i s = Builtin \<or> getAnalytics i s = Text x \<Longrightarrow>
   storedAnalytics i s = None"
  unfolding getAnalytics_def storedAnalytics_def by (rule getProperty_not_own)

lemma getAnalytics_plain:
  "storedAnalytics i s = None \<Longrightarrow> \<not> inherited i \<Longrightarrow> i \<noteq> ''lastViewed'' \<Longrightarrow>
   getAnalytics i s = Undefined"
  unfolding getAnalytics_def storedAnalytics_def by (rule getProperty_plain)

lemma getAnalytics_simps [simp]:
  "getAnalytics i (s\<lparr>videos_item := y\<rparr>) = getAnalytics i s"
  "getAnalytics i (s\<lparr>blob_items := bs\<rparr>) = getAnalytics i s"
  by (simp_all add: getAnalytics_def)

text \<open>
  A view call on an id that has an entry rewrites that entry; on any other id it leaves
  the stored items as they are, or at most creates the analytics key with the object it
  read.
\<close>

lemma incrementView_Own:
  "storedAnalytics i s = Some a \<Longrightarrow>
   incrementView quota now i s =
     setAnalyticsItem quota
       (AList.update i (a\<lparr>views := views a + 1, lastViewed := Some now\<rparr>) (getAllAnalytics s)) s"
  by (simp add: incrementView_def storedAnalytics_def getProperty_def)

lemma incrementView_not_own:
  assumes "storedAnalytics j s = None" and "incrementView quota now j s = (r, s1)"
  shows "videos_item s1 = videos_item s \<and> blob_items s1 = blob_items s \<and>
         getAllAnalytics s1 = getAllAnalytics s \<and> r \<noteq> Raised CapacityExceeded"
proof (cases "getProperty (prototype_lastViewed s) (getAllAnalytics s) j")
  case (Own a)
  with assms(1) show ?thesis by (simp add: storedAnalytics_def)
next
  case Builtin
  with assms(2) have "setAnalyticsItem quota (getAllAnalytics s)
      (if j = ''__proto__'' then s\<lparr>prototype_lastViewed := Some now\<rparr> else s) = (r, s1)"
    by (simp add: incrementView_def)
  from setAnalyticsItem_cases [OF this] show ?thesis
    by (auto simp: getAllAnalytics_def split: if_splits)
next
  case (Text t)
  with assms(2) show ?thesis by (auto simp: incrementView_def)
next
  case Undefined
  with assms(2) show ?thesis by (auto simp: incrementView_def)
qed

lemma incrementView_step:
  assumes "incrementView quota now j s = (r, s1)" and "storedAnalytics i s = Some a"
  shows "videos_item s1 = videos_item s \<and> blob_items s1 = blob_items s \<and>
         storedAnalytics i s1 =
           Some (if j = i \<and> r = Returned ()
                 then a\<lparr>views := views a + 1, lastViewed := Some now\<rparr> else a)"
proof (cases "storedAnalytics j s")
  case None
  with assms(2) have "j \<noteq> i" by auto
  with incrementView_not_own [OF None assms(1)] assms(2) show ?thesis
    by (simp add: storedAnalytics_def)
next
  case (Some b)
  from assms(1) have "setAnalyticsItem quota
       (AList.update j (b\<lparr>views := views b + 1, lastViewed := Some now\<rparr>) (getAllAnalytics s)) s =
       (r, s1)"
    by (simp add: incrementView_Own [OF Some])
  from setAnalyticsItem_cases [OF this] Some assms(2) show ?thesis
    by (auto simp: storedAnalytics_def AList.update_conv')
qed

lemma incrementView_absent:
  "getAnalytics i s = Undefined \<Longrightarrow> incrementView quota now i s = (Returned (), s)"
  by (simp add: incrementView_def getAnalytics_def)

lemma incrementView_frame:
  assumes "incrementView quota now i s = (r, s')"
  shows "videos_item s' = videos_item s \<and> blob_items s' = blob_items s \<and>
         (\<forall>j. j \<noteq> i \<longrightarrow> storedAnalytics j s' = storedAnalytics j s) \<and>
         r \<noteq> Raised CapacityExceeded"
proof (cases "storedAnalytics i s")
  case None
  from incrementView_not_own [OF None assms] show ?thesis
    by (simp add: storedAnalytics_def)
next
  case (Some b)
  from assms have "setAnalyticsItem quota
       (AList.update i (b\<lparr>views := views b + 1, lastViewed := Some now\<rparr>) (getAllAnalytics s)) s =
       (r, s')"
    by (simp add: incrementView_Own [OF Some])
  from setAnalyticsItem_cases [OF this] show ?thesis
    by (auto simp: storedAnalytics_def AList.update_conv')
qed


lemma incrementViews_views:
  assumes "storedAnalytics i s = Some a" and "incrementViews quota calls s = (r, s')"
  shows "\<exists>a'. storedAnalytics i s' = Some a' \<and> views a \<le> views a' \<and>
           (r = Returned () \<longrightarrow>
              views a' = views a + length (filter (\<lambda>c. fst c = i) calls))"
  using assms
proof (induction calls arbitrary: s a)
  case Nil
  then show ?case by simp
next
  case (Cons c calls)
  obtain j now where c: "c = (j, now)" by (cases c)
  obtain r1 s1 where step: "incrementView quota now j s = (r1, s1)"
    by (cases "incrementView quota now j s")
  note st = incrementView_step [OF step Cons.prems(1)]
  show ?case
  proof (cases r1)
    case (Raised e)
    with Cons.prems step c st show ?thesis by auto
  next
    case (Returned u)
    with Cons.prems(2) step c have rest: "incrementViews quota calls s1 = (r, s')" by simp
    from st Returned have a1: "storedAnalytics i s1 =
        Some (if j = i then a\<lparr>views := views a + 1, lastViewed := Some now\<rparr> else a)"
      by simp
    from Cons.IH [OF a1 rest] c show ?thesis by (auto split: if_splits)
  qed
qed

lemma foldl_plus_sum_list:
  "foldl (\<lambda>sum x. sum + f x) (z::real) xs = z + sum_list (map f xs)"
  by (induction xs arbitrary: z) simp_all




lemma recordCompletion_Own:
  "storedAnalytics i s = Some a \<Longrightarrow>
   recordCompletion quota now i p d s =
     setAnalyticsItem quota
       (AList.update i
          (a\<lparr>completionData := completionData a @ [completionPoint (now, p, d)],
             averageWatchPercentage :=
               mean (map watchPercentage (completionData a @ [completionPoint (now, p, d)]))\<rparr>)
          (getAllAnalytics s)) s"
  by (simp add: recordCompletion_def storedAnalytics_def getProperty_def Let_def
      foldl_plus_sum_list mean_def completionPoint_def)

lemma recordCompletion_not_own:
  assumes "storedAnalytics j s = None" and "recordCompletion quota now j p d s = (r, s1)"
  shows "s1 = s \<and> r \<noteq> Raised CapacityExceeded"
proof (cases "getProperty (prototype_lastViewed s) (getAllAnalytics s) j")
  case (Own a)
  with assms(1) show ?thesis by (simp add: storedAnalytics_def)
next
  case Builtin
  with assms(2) show ?thesis by (auto simp: recordCompletion_def)
next
  case (Text t)
  with assms(2) show ?thesis by (auto simp: recordCompletion_def)
next
  case Undefined
  with assms(2) show ?thesis by (auto simp: recordCompletion_def)
qed

lemma recordCompletion_step:
  assumes "recordCompletion quota now j p d s = (r, s1)" and "storedAnalytics i s = Some a"
  shows "videos_item s1 = videos_item s \<and> blob_items s1 = blob_items s \<and>
         storedAnalytics i s1 =
           Some (if j = i \<and> r = Returned ()
                 then a\<lparr>completionData := completionData a @ [completionPoint (now, p, d)],
                        averageWatchPercentage :=
                          mean (map watchPercentage
                                  (completionData a @ [completionPoint (now, p, d)]))\<rparr>
                 else a)"
proof (cases "storedAnalytics j s")
  case None
  with assms(2) have "j \<noteq> i" by auto
  with recordCompletion_not_own [OF None assms(1)] assms(2) show ?thesis
    by simp
next
  case (Some b)
  from assms(1) have "setAnalyticsItem quota
       (AList.update j
          (b\<lparr>completionData := completionData b @ [completionPoint (now, p, d)],
             averageWatchPercentage :=
               mean (map watchPercentage (completionData b @ [completionPoint (now, p, d)]))\<rparr>)
          (getAllAnalytics s)) s = (r, s1)"
    by (simp add: recordCompletion_Own [OF Some])
  from setAnalyticsItem_cases [OF this] Some assms(2) show ?thesis
    by (auto simp: storedAnalytics_def AList.update_conv')
qed

lemma recordCompletion_absent:
  "getAnalytics i s = Undefined \<Longrightarrow> recordCompletion quota now i p d s = (Returned (), s)"
  by (simp add: recordCompletion_def getAnalytics_def)

lemma recordCompletion_frame:
  assumes "recordCompletion quota now i p d s = (r, s')"
  shows "videos_item s' = videos_item s \<and> blob_items s' = blob_items s \<and>
         (\<forall>j. j \<noteq> i \<longrightarrow> storedAnalytics j s' = storedAnalytics j s) \<and>
         r \<noteq> Raised CapacityExceeded"
proof (cases "storedAnalytics i s")
  case None
  from recordCompletion_not_own [OF None assms] show ?thesis by simp
next
  case (Some b)
  from assms have "setAnalyticsItem quota
       (AList.update i
          (b\<lparr>completionData := completionData b @ [completionPoint (now, p, d)],
             averageWatchPercentage :=
               mean (map watchPercentage (completionData b @ [completionPoint (now, p, d)]))\<rparr>)
          (getAllAnalytics s)) s = (r, s')"
    by (simp add: recordCompletion_Own [OF Some])
  from setAnalyticsItem_cases [OF this] show ?thesis
    by (auto simp: storedAnalytics_def AList.update_conv')
qed


lemma recordCompletions_points:
  assumes "storedAnalytics i s = Some a" and "recordCompletions quota i calls s = (Returned (), s')"
  shows "\<exists>a'. storedAnalytics i s' = Some a' \<and>
           completionData a' = completionData a @ map completionPoint calls \<and>
           (calls \<noteq> [] \<longrightarrow>
              averageWatchPercentage a' = mean (map watchPercentage (completionData a')))"
  using assms
proof (induction calls arbitrary: s a)
  case Nil
  then show ?case by simp
next
  case (Cons c calls)
  obtain now p d where c: "c = (now, p, d)" by (cases c)
  obtain r1 s1 where step: "recordCompletion quota now i p d s = (r1, s1)"
    by (cases "recordCompletion quota now i p d s")
  with Cons.prems(2) c have r1: "r1 = Returned ()"
    and rest: "recordCompletions quota i calls s1 = (Returned (), s')"
    by (auto split: outcome.splits)
  define a1 where "a1 = a\<lparr>completionData := completionData a @ [completionPoint (now, p, d)],
       averageWatchPercentage :=
         mean (map watchPercentage (completionData a @ [completionPoint (now, p, d)]))\<rparr>"
  from recordCompletion_step [OF step Cons.prems(1)] r1
  have g1: "storedAnalytics i s1 = Some a1" by (simp add: a1_def)
  from Cons.IH [OF g1 rest] obtain a' where a': "storedAnalytics i s' = Some a'"
    "completionData a' = completionData a1 @ map completionPoint calls"
    "calls \<noteq> [] \<longrightarrow> averageWatchPercentage a' = mean (map watchPercentage (completionData a'))"
    by blast
  show ?case
  proof (cases "calls = []")
    case True
    with rest have "s' = s1" by simp
    with g1 a' True c show ?thesis by (auto simp: a1_def)
  next
    case False
    with a' c show ?thesis by (auto simp: a1_def)
  qed
qed

lemma deleteVideo_frame:
  assumes "deleteVideo quota i s = (r, s')" and "j \<noteq> i"
  shows "getVideo j s' = getVideo j s \<and> getVideoBlob j s' = getVideoBlob j s \<and>
         storedAnalytics j s' = storedAnalytics j s"
proof -
  from assms(2) have "List.find (\<lambda>v. id_v v = j) (filter (\<lambda>v. id_v v \<noteq> i) (getVideos s)) =
      List.find (\<lambda>v. id_v v = j) (getVideos s)"
    by (intro find_filter_other) simp
  with deleteVideo_cases [OF assms(1)] assms(2) show ?thesis
    by (elim disjE) (simp_all add: getVideo_def getVideoBlob_def storedAnalytics_def AList.delete_conv')
qed

lemma same_store:
  "videos_item s' = videos_item s \<Longrightarrow> blob_items s' = blob_items s \<Longrightarrow>
   getVideo j s' = getVideo j s \<and> getVideoBlob j s' = getVideoBlob j s"
  by (simp add: getVideo_def getVideos_def getVideoBlob_def)

lemma filter_absent:
  "List.find (\<lambda>v. f v = i) xs = None \<Longrightarrow> filter (\<lambda>v. f v \<noteq> i) xs = xs"
  by (induction xs) (auto split: if_splits)

lemma delete_absent: "map_of al i = None \<Longrightarrow> AList.delete i al = al"
  by (simp add: map_of_eq_None_iff)

lemma deleteVideo_absent:
  assumes "getVideo i s = None" and "getVideoBlob i s = None" and "storedAnalytics i s = None"
    and "deleteVideo quota i s = (r, s')"
  shows "getVideos s' = getVideos s \<and> blob_items s' = blob_items s \<and>
         getAllAnalytics s' = getAllAnalytics s"
proof -
  from assms(1) have f: "filter (\<lambda>v. id_v v \<noteq> i) (getVideos s) = getVideos s"
    by (simp add: getVideo_def filter_absent)
  from assms(2) have b: "AList.delete i (blob_items s) = blob_items s"
    by (simp add: getVideoBlob_def delete_absent)
  from assms(3) have a: "AList.delete i (getAllAnalytics s) = getAllAnalytics s"
    by (simp add: storedAnalytics_def delete_absent)
  from deleteVideo_cases [OF assms(4)] show ?thesis
    by (elim disjE) (simp_all add: f b a)
qed

lemma deleteVideo_returns:
  assumes "quota (s\<lparr>videos_item := Some (filter (\<lambda>v. id_v v \<noteq> i) (getVideos s))\<rparr>)"
    and "quota (s\<lparr>videos_item := Some (filter (\<lambda>v. id_v v \<noteq> i) (getVideos s)),
               blob_items := AList.delete i (blob_items s),
               analytics_item := Some (AList.delete i (getAllAnalytics s))\<rparr>)"
  shows "fst (deleteVideo quota i s) = Returned ()"
  using assms
  by (simp add: deleteVideo_def setVideosItem_def deleteAnalytics_def removeBlobItem_def
      setAnalyticsItem_def)



lemma storeVideo_Returned:
  assumes "storeVideo quota vd b s = (Returned v, s')"
  shows "v = vd \<and>
         s' = s\<lparr>videos_item := Some (getVideos s @ [vd]),
                blob_items := AList.update (id_v vd) b (blob_items s),
                analytics_item :=
                  Some (setProperty (getAllAnalytics s) (id_v vd) (zero_analytics (id_v vd)))\<rparr>"
  using assms unfolding storeVideo_def initializeAnalytics_def zero_analytics_def
  by (auto split: prod.splits outcome.splits
      dest!: setVideosItem_cases setBlobItem_cases setAnalyticsItem_cases)

lemma storeVideo_Returned_lookups:
  assumes "storeVideo quota vd b s = (Returned v, s')"
  shows "getVideos s' = getVideos s @ [vd]"
    and "getVideoBlob (id_v vd) s' = Some b"
    and "id_v vd \<noteq> ''__proto__'' \<Longrightarrow> getAnalytics (id_v vd) s' = Own (zero_analytics (id_v vd))"
proof -
  from storeVideo_Returned [OF assms]
  have s': "s' = s\<lparr>videos_item := Some (getVideos s @ [vd]),
                blob_items := AList.update (id_v vd) b (blob_items s),
                analytics_item :=
                  Some (setProperty (getAllAnalytics s) (id_v vd) (zero_analytics (id_v vd)))\<rparr>"
    by blast
  show "getVideos s' = getVideos s @ [vd]"
    by (simp add: s' getVideos_def)
  show "getVideoBlob (id_v vd) s' = Some b"
    by (simp add: s' getVideoBlob_def AList.update_conv')
  assume "id_v vd \<noteq> ''__proto__''"
  then show "getAnalytics (id_v vd) s' = Own (zero_analytics (id_v vd))"
    by (simp add: s' getAnalytics_def getAllAnalytics_def setProperty_map_of)
qed


lemma storeVideo_Raised:
  assumes "storeVideo quota vd b s = (Raised e, s1)"
  shows "e = QuotaExceededError \<and> analytics_item s1 = analytics_item s \<and>
         (s1 = s \<or>
          s1 = s\<lparr>videos_item := Some (getVideos s @ [vd])\<rparr> \<or>
          s1 = s\<lparr>videos_item := Some (getVideos s @ [vd]),
                 blob_items := AList.update (id_v vd) b (blob_items s)\<rparr>)"
  using assms unfolding storeVideo_def initializeAnalytics_def
  by (auto split: prod.splits outcome.splits
      dest!: setVideosItem_cases setBlobItem_cases setAnalyticsItem_cases)

lemma storeVideo_Raised_frame:
  assumes "storeVideo quota vd b t = (Raised e, t')"
  shows "set (getVideos t') \<subseteq> insert vd (set (getVideos t))"
    and "j \<noteq> id_v vd \<Longrightarrow> getVideoBlob j t' = getVideoBlob j t"
    and "storedAnalytics j t' = storedAnalytics j t"
proof -
  from storeVideo_Raised [OF assms]
  have an: "analytics_item t' = analytics_item t" and
    cases: "t' = t \<or> t' = t\<lparr>videos_item := Some (getVideos t @ [vd])\<rparr> \<or>
          t' = t\<lparr>videos_item := Some (getVideos t @ [vd]),
                 blob_items := AList.update (id_v vd) b (blob_items t)\<rparr>"
    by blast+
  from cases show "set (getVideos t') \<subseteq> insert vd (set (getVideos t))"
    by (elim disjE) (simp_all add: getVideos_def subset_insertI)
  from an show "storedAnalytics j t' = storedAnalytics j t"
    by (simp add: storedAnalytics_def getAllAnalytics_def)
  assume "j \<noteq> id_v vd"
  with cases show "getVideoBlob j t' = getVideoBlob j t"
    by (elim disjE) (simp_all add: getVideoBlob_def AList.update_conv')
qed

lemma deleteOldVideos_frame:
  "deleteOldVideos quota ds s = (r, s') \<Longrightarrow>
     videos_item s' = videos_item s \<and>
     (r = Returned () \<or> r = Raised QuotaExceededError) \<and>
     (\<forall>j. getVideoBlob j s' = None \<or> getVideoBlob j s' = getVideoBlob j s) \<and>
     (\<forall>j. storedAnalytics j s' = None \<or> storedAnalytics j s' = storedAnalytics j s)"
proof (induction ds arbitrary: s)
  case Nil
  then show ?case by simp
next
  case (Cons d ds)
  obtain r1 s1 where step: "deleteAnalytics quota (id_v d) (removeBlobItem (id_v d) s) = (r1, s1)"
    by (cases "deleteAnalytics quota (id_v d) (removeBlobItem (id_v d) s)")
  from deleteAnalytics_cases [OF step]
  have one: "videos_item s1 = videos_item s \<and>
     (\<forall>j. getVideoBlob j s1 = None \<or> getVideoBlob j s1 = getVideoBlob j s) \<and>
     (\<forall>j. storedAnalytics j s1 = None \<or> storedAnalytics j s1 = storedAnalytics j s)"
    by (auto simp: removeBlobItem_def getVideoBlob_def storedAnalytics_def AList.delete_conv')
  show ?case
  proof (cases r1)
    case (Raised e)
    with Cons.prems step deleteAnalytics_cases [OF step] one show ?thesis by auto
  next
    case (Returned u)
    with Cons.prems step have rest: "deleteOldVideos quota ds s1 = (r, s')" by simp
    from Cons.IH [OF rest] one show ?thesis by metis
  qed
qed

lemma deleteOldVideos_Returned:
  "deleteOldVideos quota ds s = (Returned (), s') \<Longrightarrow>
     (\<forall>j. getVideoBlob j s' = (if j \<in> id_v ` set ds then None else getVideoBlob j s)) \<and>
     (\<forall>j. storedAnalytics j s' = (if j \<in> id_v ` set ds then None else storedAnalytics j s))"
proof (induction ds arbitrary: s)
  case Nil
  then show ?case by simp
next
  case (Cons d ds)
  obtain r1 s1 where step: "deleteAnalytics quota (id_v d) (removeBlobItem (id_v d) s) = (r1, s1)"
    by (cases "deleteAnalytics quota (id_v d) (removeBlobItem (id_v d) s)")
  with Cons.prems have r1: "r1 = Returned ()" and rest: "deleteOldVideos quota ds s1 = (Returned (), s')"
    by (auto split: outcome.splits)
  from deleteAnalytics_cases [OF step] r1
  have one: "\<forall>j. getVideoBlob j s1 = (if j = id_v d then None else getVideoBlob j s) \<and>
                 storedAnalytics j s1 = (if j = id_v d then None else storedAnalytics j s)"
    by (auto simp: removeBlobItem_def getVideoBlob_def storedAnalytics_def AList.delete_conv')
  from Cons.IH [OF rest] one show ?case by auto
qed

lemma insertSorted_mset: "mset (insertSorted compare x ys) = add_mset x (mset ys)"
  by (induction ys) simp_all

lemma arraySort_mset: "mset (arraySort compare xs) = mset xs"
  by (induction xs) (simp_all add: arraySort_def insertSorted_mset)

lemma arraySort_set: "set (arraySort compare xs) = set xs"
  using arraySort_mset [of compare xs] by (rule mset_eq_setD)

lemma arraySort_length: "length (arraySort compare xs) = length xs"
  using arraySort_mset [of compare xs] by (rule mset_eq_length)

lemma insertSorted_dated:
  assumes "getTime (createdAt x) \<noteq> None" and "list_all (\<lambda>v. getTime (createdAt v) \<noteq> None) ys"
  shows "insertSorted (compareFn getTime) x ys =
         insort_key (\<lambda>v. - the (getTime (createdAt v))) x ys"
  using assms by (induction ys) (auto simp: compareFn_def)

lemma arraySort_dated:
  "list_all (\<lambda>v. getTime (createdAt v) \<noteq> None) xs \<Longrightarrow>
   arraySort (compareFn getTime) xs = sort_key (\<lambda>v. - the (getTime (createdAt v))) xs"
proof (induction xs)
  case Nil
  then show ?case by (simp add: arraySort_def)
next
  case (Cons x xs)
  then have x: "getTime (createdAt x) \<noteq> None"
    and xs: "list_all (\<lambda>v. getTime (createdAt v) \<noteq> None) xs" by simp_all
  from xs have "list_all (\<lambda>v. getTime (createdAt v) \<noteq> None)
      (sort_key (\<lambda>v. - the (getTime (createdAt v))) xs)"
    by (simp add: list_all_iff)
  from insertSorted_dated [OF x this] Cons.IH [OF xs] show ?case
    by (simp add: arraySort_def sort_key_def)
qed

lemma cleanupOldVideos_frame:
  assumes "cleanupOldVideos quota getTime k s = (r, s')"
  shows "set (getVideos s') \<subseteq> set (getVideos s) \<and>
     (r = Returned () \<or> r = Raised QuotaExceededError) \<and>
     (\<forall>j. getVideoBlob j s' = None \<or> getVideoBlob j s' = getVideoBlob j s) \<and>
     (\<forall>j. storedAnalytics j s' = None \<or> storedAnalytics j s' = storedAnalytics j s)"
proof (cases "length (getVideos s) \<le> k")
  case True
  with assms show ?thesis by (simp add: cleanupOldVideos_def)
next
  case False
  define sorted where "sorted = arraySort (compareFn getTime) (getVideos s)"
  obtain r1 s1 where del: "deleteOldVideos quota (drop k sorted) s = (r1, s1)"
    by (cases "deleteOldVideos quota (drop k sorted) s")
  note fr = deleteOldVideos_frame [OF del]
  show ?thesis
  proof (cases r1)
    case (Raised e)
    with assms False del fr show ?thesis
      by (simp add: cleanupOldVideos_def sorted_def getVideos_def)
  next
    case (Returned u)
    with assms False del
    have fin: "setVideosItem quota (take k sorted) s1 = (r, s')"
      by (simp add: cleanupOldVideos_def sorted_def)
    have sub: "set (take k sorted) \<subseteq> set (getVideos s)"
      using set_take_subset [of k sorted] by (simp add: sorted_def arraySort_set)
    from setVideosItem_cases [OF fin] fr sub show ?thesis
      by (auto simp: getVideos_def)
  qed
qed

lemma cleanupOldVideos_small:
  "length (getVideos s) \<le> k \<Longrightarrow> cleanupOldVideos quota getTime k s = (Returned (), s)"
  by (simp add: cleanupOldVideos_def)

lemma cleanupOldVideos_large:
  assumes "\<not> length (getVideos s) \<le> k"
    and "cleanupOldVideos quota getTime k s = (Returned (), s')"
  shows "\<exists>s1. deleteOldVideos quota
                 (drop k (arraySort (compareFn getTime) (getVideos s))) s = (Returned (), s1) \<and>
              s' = s1\<lparr>videos_item := Some (take k (arraySort (compareFn getTime) (getVideos s)))\<rparr>"
proof -
  define sorted where "sorted = arraySort (compareFn getTime) (getVideos s)"
  obtain r1 s1 where del: "deleteOldVideos quota (drop k sorted) s = (r1, s1)"
    by (cases "deleteOldVideos quota (drop k sorted) s")
  from assms del have r1: "r1 = Returned ()"
    by (cases r1) (auto simp: cleanupOldVideos_def sorted_def)
  with assms del have "setVideosItem quota (take k sorted) s1 = (Returned (), s')"
    by (simp add: cleanupOldVideos_def sorted_def)
  from setVideosItem_cases [OF this] have "s' = s1\<lparr>videos_item := Some (take k sorted)\<rparr>"
    by simp
  with del r1 show ?thesis unfolding sorted_def by blast
qed



lemma uploadVideo_Returned:
  assumes "uploadVideo quota getTime blobToBase64 ms rnd file metadata s = (Returned r, s')"
  shows "\<exists>b s0. blobToBase64 file = Some b \<and> r = makeVideoData (generateId ms rnd) metadata \<and>
           storeVideo quota r b s0 = (Returned r, s') \<and>
           set (getVideos s0) \<subseteq> insert r (set (getVideos s))"
proof -
  from assms obtain b where b: "blobToBase64 file = Some b"
    by (auto simp: uploadVideo_def split: option.splits)
  define vd where "vd = makeVideoData (generateId ms rnd) metadata"
  obtain r1 s1 where first: "storeVideo quota vd b s = (r1, s1)"
    by (cases "storeVideo quota vd b s")
  show ?thesis
  proof (cases r1)
    case (Returned v)
    with storeVideo_Returned first have "v = vd" by blast
    with assms b first Returned show ?thesis
      by (auto simp: uploadVideo_def vd_def Let_def)
  next
    case (Raised e)
    with storeVideo_Raised first have e: "e = QuotaExceededError"
      and s1: "set (getVideos s1) \<subseteq> insert vd (set (getVideos s))"
      by fastforce+
    obtain r2 s2 where clean: "cleanupOldVideos quota getTime 3 s1 = (r2, s2)"
      by (cases "cleanupOldVideos quota getTime 3 s1")
    from cleanupOldVideos_frame [OF clean] s1
    have s2: "set (getVideos s2) \<subseteq> insert vd (set (getVideos s))" by blast
    from assms b first Raised e clean obtain u where r2: "r2 = Returned u"
      by (cases r2) (auto simp: uploadVideo_def vd_def Let_def)
    from assms b first Raised e clean r2
    have "storeVideo quota vd b s2 = (Returned r, s')"
      by (auto simp: uploadVideo_def vd_def Let_def split: outcome.splits prod.splits)
    moreover from this storeVideo_Returned have "r = vd" by blast
    ultimately show ?thesis using b s2 by (auto simp: vd_def)
  qed
qed

lemma uploadVideo_CapacityExceeded:
  assumes "uploadVideo quota getTime blobToBase64 ms rnd file metadata s = (Raised CapacityExceeded, s')"
  shows "\<exists>b s1 s2. blobToBase64 file = Some b \<and>
           storeVideo quota (makeVideoData (generateId ms rnd) metadata) b s = (Raised QuotaExceededError, s1) \<and>
           cleanupOldVideos quota getTime 3 s1 = (Returned (), s2) \<and>
           storeVideo quota (makeVideoData (generateId ms rnd) metadata) b s2 = (Raised QuotaExceededError, s')"
proof -
  from assms obtain b where b: "blobToBase64 file = Some b"
    by (auto simp: uploadVideo_def split: option.splits)
  define vd where "vd = makeVideoData (generateId ms rnd) metadata"
  obtain r1 s1 where first: "storeVideo quota vd b s = (r1, s1)"
    by (cases "storeVideo quota vd b s")
  from assms b first obtain e where r1: "r1 = Raised e"
    by (cases r1) (auto simp: uploadVideo_def vd_def Let_def)
  with storeVideo_Raised first have e: "e = QuotaExceededError" by blast
  obtain r2 s2 where clean: "cleanupOldVideos quota getTime 3 s1 = (r2, s2)"
    by (cases "cleanupOldVideos quota getTime 3 s1")
  from cleanupOldVideos_frame [OF clean]
  have r2: "r2 = Returned () \<or> r2 = Raised QuotaExceededError" by blast
  from assms b first r1 e clean r2 have r2: "r2 = Returned ()"
    by (auto simp: uploadVideo_def vd_def Let_def)
  obtain r3 s3 where second: "storeVideo quota vd b s2 = (r3, s3)"
    by (cases "storeVideo quota vd b s2")
  from assms b first r1 e clean r2 second obtain e3 where r3: "r3 = Raised e3" and s3: "s3 = s'"
    by (cases r3) (auto simp: uploadVideo_def vd_def Let_def)
  with storeVideo_Raised second have "e3 = QuotaExceededError" by blast
  with b first r1 e clean r2 second r3 s3 show ?thesis by (auto simp: vd_def)
qed


lemma find_unique:
  "(\<forall>y\<in>set xs. P y \<longrightarrow> y = x) \<Longrightarrow> (\<exists>y\<in>set xs. P y) \<Longrightarrow> List.find P xs = Some x"
proof (induction xs)
  case Nil
  then show ?case by simp
next
  case (Cons a xs)
  show ?case
  proof (cases "P a")
    case True
    with Cons.prems(1) show ?thesis by simp
  next
    case False
    with Cons.prems have "\<forall>y\<in>set xs. P y \<longrightarrow> y = x" "\<exists>y\<in>set xs. P y" by auto
    with Cons.IH False show ?thesis by simp
  qed
qed

lemma find_distinct:
  assumes "distinct (map f xs)" and "x \<in> set xs"
  shows "List.find (\<lambda>v. f v = f x) xs = Some x"
proof (rule find_unique)
  from assms show "\<forall>y\<in>set xs. f y = f x \<longrightarrow> y = x"
    by (auto simp: distinct_map dest: inj_onD)
  from assms(2) show "\<exists>y\<in>set xs. f y = f x" by blast
qed

lemma find_absent: "i \<notin> f ` set xs \<Longrightarrow> List.find (\<lambda>v. f v = i) xs = None"
  by (auto simp: find_None_iff)

lemma sorted_take_drop:
  assumes "sorted (map g xs)" and "x \<in> set (take k xs)" and "y \<in> set (drop k xs)"
  shows "g x \<le> g y"
proof -
  have "sorted (map g (take k xs) @ map g (drop k xs))"
    using assms(1) by (simp flip: map_append)
  with assms(2,3) show ?thesis by (auto simp: sorted_append)
qed



lemma storeVideo_rejected:
  "\<not> quota (s\<lparr>videos_item := Some (getVideos s @ [vd])\<rparr>) \<Longrightarrow>
   storeVideo quota vd b s = (Raised QuotaExceededError, s)"
  by (simp add: storeVideo_def setVideosItem_def Let_def)

lemma find_same_id:
  assumes "x \<in> set xs" and "\<forall>a\<in>set xs. f a = f x \<longrightarrow> a = x"
  shows "List.find (\<lambda>v. f v = f x) xs = Some x"
proof (rule find_unique)
  from assms(2) show "\<forall>y\<in>set xs. f y = f x \<longrightarrow> y = x" .
  from assms(1) show "\<exists>y\<in>set xs. f y = f x" by blast
qed

lemma videosToDelete_large:
  "\<not> length (getVideos s) \<le> k \<Longrightarrow>
   videosToDelete getTime k s = drop k (arraySort (compareFn getTime) (getVideos s))"
  by (simp add: videosToDelete_def Let_def)

lemma videosToDelete_small: "length (getVideos s) \<le> k \<Longrightarrow> videosToDelete getTime k s = []"
  by (simp add: videosToDelete_def Let_def)

text \<open>
  How an operation ends when the store rejects one of its writes: with the store's error,
  in the state in which the write was rejected.
\<close>

lemma setVideosItem_Raised:
  "setVideosItem quota vs s = (Raised e, s') \<Longrightarrow>
   e = QuotaExceededError \<and> s' = s \<and> \<not> quota (s'\<lparr>videos_item := Some vs\<rparr>)"
  by (auto dest!: setVideosItem_cases)

lemma setAnalyticsItem_Raised:
  "setAnalyticsItem quota al s = (Raised e, s') \<Longrightarrow>
   e = QuotaExceededError \<and> s' = s \<and> \<not> quota (s'\<lparr>analytics_item := Some al\<rparr>)"
  by (auto dest!: setAnalyticsItem_cases)

lemma deleteAnalytics_Raised:
  "deleteAnalytics quota i s = (Raised e, s') \<Longrightarrow>
   e = QuotaExceededError \<and> rejected_write quota s'"
  unfolding deleteAnalytics_def by (blast dest!: setAnalyticsItem_Raised)

lemma initializeAnalytics_Raised:
  "initializeAnalytics quota i s = (Raised e, s') \<Longrightarrow>
   e = QuotaExceededError \<and> rejected_write quota s'"
  unfolding initializeAnalytics_def by (blast dest!: setAnalyticsItem_Raised)

lemma deleteVideo_Raised:
  assumes "deleteVideo quota i s = (Raised e, s')"
  shows "e = QuotaExceededError \<and> rejected_write quota s'"
proof -
  obtain r1 s1 where w: "setVideosItem quota (filter (\<lambda>v. id_v v \<noteq> i) (getVideos s)) s = (r1, s1)"
    by (cases "setVideosItem quota (filter (\<lambda>v. id_v v \<noteq> i) (getVideos s)) s")
  show ?thesis
  proof (cases r1)
    case (Raised e1)
    with assms w have "e1 = e" "s1 = s'" by (simp_all add: deleteVideo_def)
    with setVideosItem_Raised w Raised show ?thesis by blast
  next
    case (Returned u)
    with assms w have "deleteAnalytics quota i (removeBlobItem i s1) = (Raised e, s')"
      by (simp add: deleteVideo_def)
    then show ?thesis by (rule deleteAnalytics_Raised)
  qed
qed

lemma deleteOldVideos_Raised:
  "deleteOldVideos quota ds s = (Raised e, s') \<Longrightarrow>
   e = QuotaExceededError \<and> rejected_write quota s'"
proof (induction ds arbitrary: s)
  case Nil
  then show ?case by simp
next
  case (Cons d ds)
  obtain r1 s1 where step: "deleteAnalytics quota (id_v d) (removeBlobItem (id_v d) s) = (r1, s1)"
    by (cases "deleteAnalytics quota (id_v d) (removeBlobItem (id_v d) s)")
  show ?case
  proof (cases r1)
    case (Raised e1)
    with Cons.prems step have "e1 = e" "s1 = s'" by simp_all
    with step Raised have "deleteAnalytics quota (id_v d) (removeBlobItem (id_v d) s) = (Raised e, s')"
      by simp
    then show ?thesis by (rule deleteAnalytics_Raised)
  next
    case (Returned u)
    with Cons.prems step have "deleteOldVideos quota ds s1 = (Raised e, s')" by simp
    then show ?thesis by (rule Cons.IH)
  qed
qed

lemma cleanupOldVideos_Raised:
  assumes "cleanupOldVideos quota getTime k s = (Raised e, s')"
  shows "e = QuotaExceededError \<and> rejected_write quota s'"
proof (cases "length (getVideos s) \<le> k")
  case True
  with assms show ?thesis by (simp add: cleanupOldVideos_small)
next
  case False
  define ordered where "ordered = arraySort (compareFn getTime) (getVideos s)"
  obtain r1 s1 where del: "deleteOldVideos quota (drop k ordered) s = (r1, s1)"
    by (cases "deleteOldVideos quota (drop k ordered) s")
  show ?thesis
  proof (cases r1)
    case (Raised e1)
    with assms False del have "e1 = e" "s1 = s'"
      by (simp_all add: cleanupOldVideos_def ordered_def)
    with del Raised have "deleteOldVideos quota (drop k ordered) s = (Raised e, s')" by simp
    then show ?thesis by (rule deleteOldVideos_Raised)
  next
    case (Returned u)
    with assms False del have "setVideosItem quota (take k ordered) s1 = (Raised e, s')"
      by (simp add: cleanupOldVideos_def ordered_def)
    from setVideosItem_Raised [OF this] show ?thesis by blast
  qed
qed

lemma incrementView_Raised:
  assumes "incrementView quota now i s = (Raised e, s')"
  shows "(e = QuotaExceededError \<and> rejected_write quota s') \<or> e = TypeError"
proof (cases "getProperty (prototype_lastViewed s) (getAllAnalytics s) i")
  case (Own a)
  with assms setAnalyticsItem_Raised show ?thesis
    by (fastforce simp: incrementView_def)
next
  case Builtin
  with assms setAnalyticsItem_Raised show ?thesis
    by (fastforce simp: incrementView_def)
next
  case (Text t)
  with assms show ?thesis by (simp add: incrementView_def)
next
  case Undefined
  with assms show ?thesis by (simp add: incrementView_def)
qed

lemma recordCompletion_Raised:
  assumes "recordCompletion quota now i p d s = (Raised e, s')"
  shows "(e = QuotaExceededError \<and> rejected_write quota s') \<or> e = TypeError"
proof (cases "getProperty (prototype_lastViewed s) (getAllAnalytics s) i")
  case (Own a)
  with assms setAnalyticsItem_Raised show ?thesis
    by (fastforce simp: recordCompletion_def Let_def)
next
  case Builtin
  with assms show ?thesis by (simp add: recordCompletion_def)
next
  case (Text t)
  with assms show ?thesis by (simp add: recordCompletion_def)
next
  case Undefined
  with assms show ?thesis by (simp add: recordCompletion_def)
qed

lemma uploadVideo_QuotaExceededError:
  assumes "uploadVideo quota getTime blobToBase64 ms rnd file metadata s =
      (Raised QuotaExceededError, s')"
  shows "\<exists>b s1. blobToBase64 file = Some b \<and>
           storeVideo quota (makeVideoData (generateId ms rnd) metadata) b s =
             (Raised QuotaExceededError, s1) \<and>
           cleanupOldVideos quota getTime 3 s1 = (Raised QuotaExceededError, s')"
proof -
  from assms obtain b where b: "blobToBase64 file = Some b"
    by (auto simp: uploadVideo_def split: option.splits)
  define vd where "vd = makeVideoData (generateId ms rnd) metadata"
  obtain r1 s1 where first: "storeVideo quota vd b s = (r1, s1)"
    by (cases "storeVideo quota vd b s")
  from assms b first obtain e where r1: "r1 = Raised e"
    by (cases r1) (auto simp: uploadVideo_def vd_def Let_def)
  with storeVideo_Raised first have e: "e = QuotaExceededError" by blast
  obtain r2 s2 where clean: "cleanupOldVideos quota getTime 3 s1 = (r2, s2)"
    by (cases "cleanupOldVideos quota getTime 3 s1")
  obtain r3 s3 where second: "storeVideo quota vd b s2 = (r3, s3)"
    by (cases "storeVideo quota vd b s2")
  from assms b first r1 e clean second have "r2 = Raised QuotaExceededError \<and> s2 = s'"
    by (cases r2; cases r3) (auto simp: uploadVideo_def vd_def Let_def)
  with b first r1 e clean show ?thesis by (auto simp: vd_def)
qed

section \<open>Deletion\<close>

text \<open>
  What \<open>deleteVideo\<close> removes, for every id: when it has returned, no record with the
  id is listed, no blob and no analytics entry is stored for it. For an id that names
  nothing \<open>Object.prototype\<close> provides, \<open>getAnalytics\<close> then answers not-found.
\<close>

lemma deleteVideo_removes:
  assumes "deleteVideo quota i s = (Returned (), s')"
  shows "getVideo i s' = None \<and> getVideoBlob i s' = None \<and> storedAnalytics i s' = None \<and>
         (\<not> inherited i \<and> i \<noteq> ''lastViewed'' \<longrightarrow> getAnalytics i s' = Undefined)"
proof -
  from deleteVideo_cases [OF assms]
  have gone: "getVideo i s' = None \<and> getVideoBlob i s' = None \<and> storedAnalytics i s' = None"
    by (auto simp: getVideo_def find_filter_same AList.delete_conv' storedAnalytics_def)
  then show ?thesis by (simp add: getAnalytics_plain)
qed

text \<open>
  C4. Deletion is total: after \<open>deleteVideo(id)\<close>, \<open>getVideo(id)\<close>, \<open>getBlob(id)\<close> and
  \<open>getAnalytics(id)\<close> all answer not-found. The code does not do this for the id
  \<open>toString\<close>: the deletion returns, nothing is stored for the id, and
  \<open>getAnalytics\<close> answers with the function every object inherits under that name.
\<close>

theorem deleteVideo_then_getAnalytics_toString:
  "fst (deleteVideo (char_quota 340) ''toString'' three_videos) = Returned () \<and>
   getVideo ''toString'' (snd (deleteVideo (char_quota 340) ''toString'' three_videos)) = None \<and>
   getVideoBlob ''toString'' (snd (deleteVideo (char_quota 340) ''toString'' three_videos)) = None \<and>
   storedAnalytics ''toString'' (snd (deleteVideo (char_quota 340) ''toString'' three_videos)) = None \<and>
   getAnalytics ''toString'' (snd (deleteVideo (char_quota 340) ''toString'' three_videos)) = Builtin"
  by (simp add: three_videos_eq storage_defs sample_defs)

section \<open>View counts\<close>

text \<open>
  C5. For an id with an analytics record, a \<open>recordView\<close> call that returns has
  incremented \<open>views\<close> by exactly 1 and set \<open>lastViewed\<close> to the time of the call.
  Across any sequence of view calls (on any ids) the \<open>views\<close> of the id never
  decrease, and when the sequence has returned they have grown by exactly the number of
  calls on that id.
\<close>

theorem recordView_counts:
  assumes "getAnalytics i s = Own a"
  shows "(\<forall>s1. incrementView quota now i s = (Returned (), s1) \<longrightarrow>
            getAnalytics i s1 = Own (a\<lparr>views := views a + 1, lastViewed := Some now\<rparr>)) \<and>
         (\<forall>r s'. incrementViews quota calls s = (r, s') \<longrightarrow>
            (\<exists>a'. getAnalytics i s' = Own a' \<and> views a \<le> views a' \<and>
               (r = Returned () \<longrightarrow>
                  views a' = views a + length (filter (\<lambda>c. fst c = i) calls))))"
proof -
  from assms have stored: "storedAnalytics i s = Some a"
    by (simp add: getAnalytics_Own)
  have one: "\<forall>s1. incrementView quota now i s = (Returned (), s1) \<longrightarrow>
            getAnalytics i s1 = Own (a\<lparr>views := views a + 1, lastViewed := Some now\<rparr>)"
  proof (intro allI impI)
    fix s1 assume "incrementView quota now i s = (Returned (), s1)"
    from incrementView_step [OF this stored]
    show "getAnalytics i s1 = Own (a\<lparr>views := views a + 1, lastViewed := Some now\<rparr>)"
      by (simp add: getAnalytics_Own)
  qed
  have many: "\<forall>r s'. incrementViews quota calls s = (r, s') \<longrightarrow>
            (\<exists>a'. getAnalytics i s' = Own a' \<and> views a \<le> views a' \<and>
               (r = Returned () \<longrightarrow>
                  views a' = views a + length (filter (\<lambda>c. fst c = i) calls)))"
    using incrementViews_views [OF stored] by (simp add: getAnalytics_Own)
  from one many show ?thesis by (intro conjI)
qed

theorem recordView_counts_witness:
  "getAnalytics ''1-a'' three_videos = Own (zero_analytics ''1-a'') \<and>
   getAnalytics ''1-a''
     (snd (incrementView (char_quota 500) ''2024-02-01T10:00:00.000Z'' ''1-a'' three_videos)) =
     Own ((zero_analytics ''1-a'')\<lparr>views := 1, lastViewed := Some ''2024-02-01T10:00:00.000Z''\<rparr>) \<and>
   fst (incrementViews (char_quota 500)
          [(''1-a'', ''2024-02-01T10:00:00.000Z''), (''2-a'', ''2024-02-01T11:00:00.000Z''),
           (''1-a'', ''2024-02-01T12:00:00.000Z'')] three_videos) = Returned () \<and>
   map_option views (storedAnalytics ''1-a''
     (snd (incrementViews (char_quota 500)
          [(''1-a'', ''2024-02-01T10:00:00.000Z''), (''2-a'', ''2024-02-01T11:00:00.000Z''),
           (''1-a'', ''2024-02-01T12:00:00.000Z'')] three_videos))) = Some 2"
proof -
  let ?calls = "[(''1-a'', ''2024-02-01T10:00:00.000Z''), (''2-a'', ''2024-02-01T11:00:00.000Z''),
           (''1-a'', ''2024-02-01T12:00:00.000Z'')]"
  have a: "getAnalytics ''1-a'' three_videos = Own (zero_analytics ''1-a'')"
    by (simp add: three_videos_eq storage_defs)
  have one: "incrementView (char_quota 500) ''2024-02-01T10:00:00.000Z'' ''1-a'' three_videos =
      (Returned (),
       snd (incrementView (char_quota 500) ''2024-02-01T10:00:00.000Z'' ''1-a'' three_videos))"
    by (simp add: three_videos_eq storage_defs sample_defs)
  have many: "incrementViews (char_quota 500) ?calls three_videos =
      (Returned (), snd (incrementViews (char_quota 500) ?calls three_videos))"
    by (simp add: three_videos_eq storage_defs sample_defs)
  note inst = recordView_counts [OF a, where quota = "char_quota 500" and
      now = "''2024-02-01T10:00:00.000Z''" and calls = "?calls"]
  from inst one have
    "getAnalytics ''1-a''
       (snd (incrementView (char_quota 500) ''2024-02-01T10:00:00.000Z'' ''1-a'' three_videos)) =
     Own ((zero_analytics ''1-a'')\<lparr>views := views (zero_analytics ''1-a'') + 1,
             lastViewed := Some ''2024-02-01T10:00:00.000Z''\<rparr>)"
    by blast
  then have f1: "getAnalytics ''1-a''
       (snd (incrementView (char_quota 500) ''2024-02-01T10:00:00.000Z'' ''1-a'' three_videos)) =
     Own ((zero_analytics ''1-a'')\<lparr>views := 1, lastViewed := Some ''2024-02-01T10:00:00.000Z''\<rparr>)"
    by (simp add: zero_analytics_def)
  from arg_cong [OF many, of fst]
  have f2: "fst (incrementViews (char_quota 500) ?calls three_videos) = Returned ()"
    by (simp only: fst_conv)
  from inst many obtain a' where
    g: "getAnalytics ''1-a'' (snd (incrementViews (char_quota 500) ?calls three_videos)) = Own a'"
    and v: "views a' = views (zero_analytics ''1-a'') + length (filter (\<lambda>c. fst c = ''1-a'') ?calls)"
    by blast
  from g have g': "storedAnalytics ''1-a''
      (snd (incrementViews (char_quota 500) ?calls three_videos)) = Some a'"
    by (simp only: getAnalytics_Own)
  from v have "views a' = 2" by (simp add: zero_analytics_def)
  then have f3: "map_option views
      (storedAnalytics ''1-a'' (snd (incrementViews (char_quota 500) ?calls three_videos))) = Some 2"
    by (simp only: g' option.map)
  from a f1 f2 f3 show ?thesis by (intro conjI)
qed

section \<open>Completion points\<close>

text \<open>
  C6. For an id with an analytics record, completion calls that return append one data
  point each, holding the percentage and the duration exactly as passed (nothing is
  clamped or validated), and leave \<open>averageWatchPercentage\<close> equal to the mean of the
  percentages of all points stored so far; starting from a record without points, that
  is the mean of the percentages passed. Numbers are real numbers here, so the equality
  is exact; the doubles of the source round.
\<close>

theorem recordCompletion_average:
  assumes "getAnalytics i s = Own a"
    and "recordCompletions quota i calls s = (Returned (), s')"
  shows "\<exists>a'. getAnalytics i s' = Own a' \<and>
           completionData a' = completionData a @ map completionPoint calls \<and>
           (calls \<noteq> [] \<longrightarrow>
              averageWatchPercentage a' = mean (map watchPercentage (completionData a'))) \<and>
           (calls \<noteq> [] \<longrightarrow> completionData a = [] \<longrightarrow>
              averageWatchPercentage a' = mean (map (\<lambda>c. fst (snd c)) calls))"
proof -
  from assms(1) have stored: "storedAnalytics i s = Some a"
    by (simp add: getAnalytics_Own)
  from recordCompletions_points [OF stored assms(2)] obtain a' where a':
    "storedAnalytics i s' = Some a'"
    "completionData a' = completionData a @ map completionPoint calls"
    "calls \<noteq> [] \<longrightarrow> averageWatchPercentage a' = mean (map watchPercentage (completionData a'))"
    by blast
  from a'(1) have own: "getAnalytics i s' = Own a'"
    by (simp add: getAnalytics_Own)
  have passed: "map watchPercentage (map completionPoint calls) = map (\<lambda>c. fst (snd c)) calls"
    by (simp add: completionPoint_def split_def)
  have "calls \<noteq> [] \<longrightarrow> completionData a = [] \<longrightarrow>
      averageWatchPercentage a' = mean (map (\<lambda>c. fst (snd c)) calls)"
  proof (intro impI)
    assume ne: "calls \<noteq> []" and "completionData a = []"
    with a'(2) have "completionData a' = map completionPoint calls" by simp
    with a'(3) ne have "averageWatchPercentage a' =
        mean (map watchPercentage (map completionPoint calls))" by simp
    then show "averageWatchPercentage a' = mean (map (\<lambda>c. fst (snd c)) calls)"
      by (simp only: passed)
  qed
  with own a'(2,3) show ?thesis by blast
qed

theorem recordCompletion_average_witness:
  "fst (recordCompletions (char_quota 500) ''1-a''
          [(''2024-02-01T10:00:00.000Z'', 150, - 5), (''2024-02-01T11:00:00.000Z'', 50, 3)]
          three_videos) = Returned () \<and>
   map_option completionData (storedAnalytics ''1-a''
     (snd (recordCompletions (char_quota 500) ''1-a''
          [(''2024-02-01T10:00:00.000Z'', 150, - 5), (''2024-02-01T11:00:00.000Z'', 50, 3)]
          three_videos))) =
     Some [\<lparr>timestamp = ''2024-02-01T10:00:00.000Z'', watchPercentage = 150, watchDuration = - 5\<rparr>,
           \<lparr>timestamp = ''2024-02-01T11:00:00.000Z'', watchPercentage = 50, watchDuration = 3\<rparr>] \<and>
   map_option averageWatchPercentage (storedAnalytics ''1-a''
     (snd (recordCompletions (char_quota 500) ''1-a''
          [(''2024-02-01T10:00:00.000Z'', 150, - 5), (''2024-02-01T11:00:00.000Z'', 50, 3)]
          three_videos))) = Some 100"
proof -
  let ?calls = "[(''2024-02-01T10:00:00.000Z'', 150::real, - 5::real),
                 (''2024-02-01T11:00:00.000Z'', 50, 3)]"
  let ?s' = "snd (recordCompletions (char_quota 500) ''1-a'' ?calls three_videos)"
  have a: "getAnalytics ''1-a'' three_videos = Own (zero_analytics ''1-a'')"
    by (simp add: three_videos_eq storage_defs)
  have run: "recordCompletions (char_quota 500) ''1-a'' ?calls three_videos = (Returned (), ?s')"
    by (simp add: three_videos_eq storage_defs sample_defs)
  from recordCompletion_average [OF a run] obtain a' where a':
    "getAnalytics ''1-a'' ?s' = Own a'"
    "completionData a' = completionData (zero_analytics ''1-a'') @ map completionPoint ?calls"
    "averageWatchPercentage a' = mean (map (\<lambda>c. fst (snd c)) ?calls)"
    by (auto simp: zero_analytics_def)
  from a'(1) have own: "storedAnalytics ''1-a'' ?s' = Some a'"
    by (simp only: getAnalytics_Own)
  from a'(2) have cd: "completionData a' =
      [\<lparr>timestamp = ''2024-02-01T10:00:00.000Z'', watchPercentage = 150, watchDuration = - 5\<rparr>,
       \<lparr>timestamp = ''2024-02-01T11:00:00.000Z'', watchPercentage = 50, watchDuration = 3\<rparr>]"
    by (simp add: zero_analytics_def completionPoint_def)
  from a'(3) have avg: "averageWatchPercentage a' = 100"
    by (simp add: mean_def)
  from arg_cong [OF run, of fst]
  have ret: "fst (recordCompletions (char_quota 500) ''1-a'' ?calls three_videos) = Returned ()"
    by (simp only: fst_conv)
  show ?thesis
    by (simp only: ret own option.map cd avg simp_thms)
qed

section \<open>Mutations of an absent target\<close>

text \<open>
  Two ids for which nothing is stored and a mutation throws. For \<open>toString\<close> the guard
  \<open>if (analytics[videoId])\<close> of \<open>recordCompletion\<close> finds the inherited function, and
  \<open>push\<close> is read from its missing \<open>completionData\<close>. For \<open>zz\<close>, in the store a failed
  upload left behind (list written, analytics key never created, 70 characters of
  quota), \<open>deleteVideo\<close> creates the analytics key and the store rejects it.
\<close>

theorem absent_target_counterexample:
  "getVideo ''toString'' three_videos = None \<and>
   getVideoBlob ''toString'' three_videos = None \<and>
   storedAnalytics ''toString'' three_videos = None \<and>
   recordCompletion (char_quota 340) ''2024-02-01T10:00:00.000Z'' ''toString'' 80 30 three_videos =
     (Raised TypeError, three_videos) \<and>
   getVideo ''zz'' after_failed_upload = None \<and>
   getVideoBlob ''zz'' after_failed_upload = None \<and>
   getAnalytics ''zz'' after_failed_upload = Undefined \<and>
   fst (deleteVideo (char_quota 70) ''zz'' after_failed_upload) = Raised QuotaExceededError"
  by (simp add: three_videos_eq after_failed_upload_eq storage_defs sample_defs Let_def)

text \<open>
  C7, amended. For an id for which \<open>getVideo\<close>, \<open>getVideoBlob\<close> and \<open>getAnalytics\<close>
  answer not-found, \<open>recordView\<close> and \<open>recordCompletion\<close> write nothing, return and
  leave the state identical. \<open>deleteVideo\<close> rewrites the video list and the analytics
  object with their current contents: whatever its outcome, the video list, every blob
  and the analytics map are unchanged, and it returns whenever the store accepts those
  two rewrites; it leaves the store identical when both keys exist already and the store
  is within its quota. A rejected rewrite raises the store's \<open>QuotaExceededError\<close>.
\<close>

theorem absent_target_no_op:
  assumes "getVideo i s = None" and "getVideoBlob i s = None" and "getAnalytics i s = Undefined"
  shows "incrementView quota now i s = (Returned (), s) \<and>
         recordCompletion quota now i p d s = (Returned (), s) \<and>
         getVideos (snd (deleteVideo quota i s)) = getVideos s \<and>
         blob_items (snd (deleteVideo quota i s)) = blob_items s \<and>
         getAllAnalytics (snd (deleteVideo quota i s)) = getAllAnalytics s \<and>
         (quota (s\<lparr>videos_item := Some (getVideos s)\<rparr>) \<and>
          quota (s\<lparr>videos_item := Some (getVideos s),
                   analytics_item := Some (getAllAnalytics s)\<rparr>) \<longrightarrow>
          fst (deleteVideo quota i s) = Returned ()) \<and>
         (videos_item s \<noteq> None \<and> analytics_item s \<noteq> None \<and> quota s \<longrightarrow>
          deleteVideo quota i s = (Returned (), s))"
proof -
  obtain r s' where run: "deleteVideo quota i s = (r, s')"
    by (cases "deleteVideo quota i s")
  from assms(3) have stored: "storedAnalytics i s = None"
    by (simp add: getAnalytics_not_own)
  from assms(1) have f: "filter (\<lambda>v. id_v v \<noteq> i) (getVideos s) = getVideos s"
    by (simp add: getVideo_def filter_absent)
  from assms(2) have b: "AList.delete i (blob_items s) = blob_items s"
    by (simp add: getVideoBlob_def delete_absent)
  from stored have a: "AList.delete i (getAllAnalytics s) = getAllAnalytics s"
    by (simp add: storedAnalytics_def delete_absent)
  have "s\<lparr>videos_item := Some (getVideos s), blob_items := blob_items s,
           analytics_item := Some (getAllAnalytics s)\<rparr> =
        s\<lparr>videos_item := Some (getVideos s), analytics_item := Some (getAllAnalytics s)\<rparr>"
    by simp
  with deleteVideo_returns [where quota = quota and s = s and i = i] f b a
  have ret: "quota (s\<lparr>videos_item := Some (getVideos s)\<rparr>) \<and>
          quota (s\<lparr>videos_item := Some (getVideos s),
                   analytics_item := Some (getAllAnalytics s)\<rparr>) \<longrightarrow>
          fst (deleteVideo quota i s) = Returned ()"
    by simp
  have same: "videos_item s \<noteq> None \<and> analytics_item s \<noteq> None \<and> quota s \<longrightarrow>
          deleteVideo quota i s = (Returned (), s)"
  proof (intro impI, elim conjE)
    assume v: "videos_item s \<noteq> None" and an: "analytics_item s \<noteq> None" and q: "quota s"
    from v have v': "s\<lparr>videos_item := Some (getVideos s)\<rparr> = s"
      by (auto simp: getVideos_def)
    from an have an': "s\<lparr>analytics_item := Some (getAllAnalytics s)\<rparr> = s"
      by (auto simp: getAllAnalytics_def)
    have b': "s\<lparr>blob_items := blob_items s\<rparr> = s" by simp
    show "deleteVideo quota i s = (Returned (), s)"
      by (simp add: deleteVideo_def setVideosItem_def deleteAnalytics_def removeBlobItem_def
          setAnalyticsItem_def f b a v' an' b' q)
  qed
  from deleteVideo_absent [OF assms(1,2) stored run] run ret same assms(3) show ?thesis
    by (simp add: incrementView_absent recordCompletion_absent)
qed

theorem absent_target_no_op_witness:
  "getVideo ''zz'' three_videos = None \<and> getVideoBlob ''zz'' three_videos = None \<and>
   getAnalytics ''zz'' three_videos = Undefined \<and> char_quota 340 three_videos \<and>
   incrementView (char_quota 340) ''2024-02-01T10:00:00.000Z'' ''zz'' three_videos =
     (Returned (), three_videos) \<and>
   recordCompletion (char_quota 340) ''2024-02-01T10:00:00.000Z'' ''zz'' 80 30 three_videos =
     (Returned (), three_videos) \<and>
   deleteVideo (char_quota 340) ''zz'' three_videos = (Returned (), three_videos)"
proof -
  have absent: "getVideo ''zz'' three_videos = None" "getVideoBlob ''zz'' three_videos = None"
    "getAnalytics ''zz'' three_videos = Undefined"
    by (simp_all add: three_videos_eq storage_defs sample_defs)
  have ok: "videos_item three_videos \<noteq> None \<and> analytics_item three_videos \<noteq> None \<and>
      char_quota 340 three_videos"
    by (simp add: three_videos_eq storage_defs sample_defs)
  from absent_target_no_op [OF absent, where quota = "char_quota 340" and
      now = "''2024-02-01T10:00:00.000Z''" and p = 80 and d = 30]
    absent ok
  show ?thesis by blast
qed

section \<open>Mutations touch one id\<close>

text \<open>
  C10. For distinct ids \<open>i\<close> and \<open>j\<close>, \<open>recordView i\<close>, \<open>recordCompletion i\<close> and
  \<open>deleteVideo i\<close> leave the stored record, the blob and the stored analytics record of
  \<open>j\<close> as they were, whatever the outcome of the call. \<open>recordView i\<close> changes at most
  \<open>views\<close> and \<open>lastViewed\<close> of the analytics record of \<open>i\<close>, and \<open>recordCompletion i\<close>
  at most \<open>completionData\<close> and \<open>averageWatchPercentage\<close>.
\<close>

theorem mutations_touch_one_id:
  assumes "j \<noteq> i"
  shows "(\<forall>r s'. incrementView quota now i s = (r, s') \<longrightarrow>
            getVideo j s' = getVideo j s \<and> getVideoBlob j s' = getVideoBlob j s \<and>
            storedAnalytics j s' = storedAnalytics j s) \<and>
         (\<forall>r s'. recordCompletion quota now i p d s = (r, s') \<longrightarrow>
            getVideo j s' = getVideo j s \<and> getVideoBlob j s' = getVideoBlob j s \<and>
            storedAnalytics j s' = storedAnalytics j s) \<and>
         (\<forall>r s'. deleteVideo quota i s = (r, s') \<longrightarrow>
            getVideo j s' = getVideo j s \<and> getVideoBlob j s' = getVideoBlob j s \<and>
            storedAnalytics j s' = storedAnalytics j s) \<and>
         (\<forall>a r s'. storedAnalytics i s = Some a \<longrightarrow> incrementView quota now i s = (r, s') \<longrightarrow>
            (\<exists>a'. storedAnalytics i s' = Some a' \<and> videoId a' = videoId a \<and>
               completionData a' = completionData a \<and>
               averageWatchPercentage a' = averageWatchPercentage a)) \<and>
         (\<forall>a r s'. storedAnalytics i s = Some a \<longrightarrow> recordCompletion quota now i p d s = (r, s') \<longrightarrow>
            (\<exists>a'. storedAnalytics i s' = Some a' \<and> videoId a' = videoId a \<and>
               views a' = views a \<and> lastViewed a' = lastViewed a))"
proof -
  have p1: "\<forall>r s'. incrementView quota now i s = (r, s') \<longrightarrow>
            getVideo j s' = getVideo j s \<and> getVideoBlob j s' = getVideoBlob j s \<and>
            storedAnalytics j s' = storedAnalytics j s"
  proof (intro allI impI)
    fix r s' assume run: "incrementView quota now i s = (r, s')"
    from incrementView_frame [OF run] assms same_store [of s' s j]
    show "getVideo j s' = getVideo j s \<and> getVideoBlob j s' = getVideoBlob j s \<and>
          storedAnalytics j s' = storedAnalytics j s" by blast
  qed
  have p2: "\<forall>r s'. recordCompletion quota now i p d s = (r, s') \<longrightarrow>
            getVideo j s' = getVideo j s \<and> getVideoBlob j s' = getVideoBlob j s \<and>
            storedAnalytics j s' = storedAnalytics j s"
  proof (intro allI impI)
    fix r s' assume run: "recordCompletion quota now i p d s = (r, s')"
    from recordCompletion_frame [OF run] assms same_store [of s' s j]
    show "getVideo j s' = getVideo j s \<and> getVideoBlob j s' = getVideoBlob j s \<and>
          storedAnalytics j s' = storedAnalytics j s" by blast
  qed
  have p3: "\<forall>r s'. deleteVideo quota i s = (r, s') \<longrightarrow>
            getVideo j s' = getVideo j s \<and> getVideoBlob j s' = getVideoBlob j s \<and>
            storedAnalytics j s' = storedAnalytics j s"
  proof (intro allI impI)
    fix r s' assume run: "deleteVideo quota i s = (r, s')"
    from deleteVideo_frame [OF run assms]
    show "getVideo j s' = getVideo j s \<and> getVideoBlob j s' = getVideoBlob j s \<and>
          storedAnalytics j s' = storedAnalytics j s" .
  qed
  have p4: "\<forall>a r s'. storedAnalytics i s = Some a \<longrightarrow> incrementView quota now i s = (r, s') \<longrightarrow>
            (\<exists>a'. storedAnalytics i s' = Some a' \<and> videoId a' = videoId a \<and>
               completionData a' = completionData a \<and>
               averageWatchPercentage a' = averageWatchPercentage a)"
  proof (intro allI impI)
    fix a r s' assume a: "storedAnalytics i s = Some a" and run: "incrementView quota now i s = (r, s')"
    from incrementView_step [OF run a]
    have "storedAnalytics i s' =
        Some (if i = i \<and> r = Returned ()
              then a\<lparr>views := views a + 1, lastViewed := Some now\<rparr> else a)"
      by blast
    then show "\<exists>a'. storedAnalytics i s' = Some a' \<and> videoId a' = videoId a \<and>
                 completionData a' = completionData a \<and>
                 averageWatchPercentage a' = averageWatchPercentage a"
      by (cases "r = Returned ()") simp_all
  qed
  have p5: "\<forall>a r s'. storedAnalytics i s = Some a \<longrightarrow> recordCompletion quota now i p d s = (r, s') \<longrightarrow>
            (\<exists>a'. storedAnalytics i s' = Some a' \<and> videoId a' = videoId a \<and>
               views a' = views a \<and> lastViewed a' = lastViewed a)"
  proof (intro allI impI)
    fix a r s' assume a: "storedAnalytics i s = Some a"
      and run: "recordCompletion quota now i p d s = (r, s')"
    from recordCompletion_step [OF run a]
    have "storedAnalytics i s' =
             Some (if i = i \<and> r = Returned ()
                   then a\<lparr>completionData := completionData a @ [completionPoint (now, p, d)],
                          averageWatchPercentage :=
                            mean (map watchPercentage
                                    (completionData a @ [completionPoint (now, p, d)]))\<rparr>
                   else a)"
      by blast
    then show "\<exists>a'. storedAnalytics i s' = Some a' \<and> videoId a' = videoId a \<and>
                 views a' = views a \<and> lastViewed a' = lastViewed a"
      by (cases "r = Returned ()") simp_all
  qed
  from p1 p2 p3 p4 p5 show ?thesis by (intro conjI)
qed


theorem mutations_touch_one_id_witness:
  "storedAnalytics ''2-a'' (snd (incrementView (char_quota 500) ''2024-02-01T10:00:00.000Z'' ''1-a''
       three_videos)) = Some (zero_analytics ''2-a'') \<and>
   getVideoBlob ''2-a'' (snd (recordCompletion (char_quota 500) ''2024-02-01T10:00:00.000Z'' ''1-a''
       80 30 three_videos)) = Some ''data:video/webm;base64,BBBB'' \<and>
   getVideo ''2-a'' (snd (deleteVideo (char_quota 500) ''1-a'' three_videos)) =
     Some (video ''2'' ''2024-01-02'') \<and>
   getVideo ''1-a'' (snd (deleteVideo (char_quota 500) ''1-a'' three_videos)) = None"
proof -
  have ne: "''2-a'' \<noteq> ''1-a''" by simp
  note inst = mutations_touch_one_id [OF ne, where quota = "char_quota 500" and
      now = "''2024-02-01T10:00:00.000Z''" and s = three_videos and p = 80 and d = 30]
  have "storedAnalytics ''2-a'' (snd (incrementView (char_quota 500) ''2024-02-01T10:00:00.000Z''
       ''1-a'' three_videos)) = storedAnalytics ''2-a'' three_videos"
    using inst by (metis prod.collapse)
  moreover have "getVideoBlob ''2-a'' (snd (recordCompletion (char_quota 500)
       ''2024-02-01T10:00:00.000Z'' ''1-a'' 80 30 three_videos)) = getVideoBlob ''2-a'' three_videos"
    using inst by (metis prod.collapse)
  moreover have "getVideo ''2-a'' (snd (deleteVideo (char_quota 500) ''1-a'' three_videos)) =
      getVideo ''2-a'' three_videos"
    using inst by (metis prod.collapse)
  moreover have "storedAnalytics ''2-a'' three_videos = Some (zero_analytics ''2-a'')"
    "getVideoBlob ''2-a'' three_videos = Some ''data:video/webm;base64,BBBB''"
    "getVideo ''2-a'' three_videos = Some (video ''2'' ''2024-01-02'')"
    "getVideo ''1-a'' (snd (deleteVideo (char_quota 500) ''1-a'' three_videos)) = None"
    by (simp_all add: three_videos_eq storage_defs sample_defs)
  ultimately show ?thesis by simp
qed

section \<open>Upload\<close>

text \<open>
  C3. Round trip: when \<open>createVideo\<close> has returned the record \<open>r\<close>, and the generated
  id is not the id of a record stored before the call, then \<open>getVideo\<close> on the id of
  \<open>r\<close> returns \<open>r\<close> and \<open>getVideoBlob\<close> returns the text encoding of the payload; this
  holds on the direct path and on the path through cleanup and retry.
\<close>

theorem uploadVideo_round_trip:
  assumes "uploadVideo quota getTime blobToBase64 ms rnd file metadata s = (Returned r, s')"
    and "generateId ms rnd \<notin> id_v ` set (getVideos s)"
  shows "r = makeVideoData (generateId ms rnd) metadata \<and> getVideo (id_v r) s' = Some r \<and>
         getVideoBlob (id_v r) s' = blobToBase64 file"
proof -
  from uploadVideo_Returned [OF assms(1)] obtain b s0 where
    b: "blobToBase64 file = Some b" and r: "r = makeVideoData (generateId ms rnd) metadata" and
    st: "storeVideo quota r b s0 = (Returned r, s')" and
    sub: "set (getVideos s0) \<subseteq> insert r (set (getVideos s))" by blast
  define i where "i = generateId ms rnd"
  from r have idr: "id_v r = i" by (simp add: makeVideoData_def i_def)
  note vs = storeVideo_Returned_lookups(1) [OF st]
  note bl = storeVideo_Returned_lookups(2) [OF st]
  have uniq: "\<forall>y\<in>set (getVideos s'). id_v y = i \<longrightarrow> y = r"
  proof (intro ballI impI)
    fix y assume y: "y \<in> set (getVideos s')" and yi: "id_v y = i"
    from y vs sub have "y = r \<or> y \<in> set (getVideos s)" by auto
    moreover have "y \<notin> set (getVideos s)"
    proof
      assume "y \<in> set (getVideos s)"
      then have "id_v y \<in> id_v ` set (getVideos s)" by (rule imageI)
      with yi assms(2) show False by (simp add: i_def)
    qed
    ultimately show "y = r" by simp
  qed
  have ex: "\<exists>y\<in>set (getVideos s'). id_v y = i"
    using vs idr by auto
  have "List.find (\<lambda>v. id_v v = i) (getVideos s') = Some r"
    using uniq ex by (rule find_unique)
  then have "getVideo (id_v r) s' = Some r"
    by (simp add: getVideo_def idr)
  with r bl b show ?thesis by (simp add: i_def)
qed

theorem uploadVideo_round_trip_witness:
  "generateId ''4'' ''a'' \<notin> id_v ` set (getVideos three_videos) \<and>
   fst (uploadVideo (char_quota 340) day_number data_url ''4'' ''a'' ''DDDD'' (clip ''2024-01-04'')
          three_videos) = Returned (video ''4'' ''2024-01-04'') \<and>
   getVideo ''4-a''
     (snd (uploadVideo (char_quota 340) day_number data_url ''4'' ''a'' ''DDDD'' (clip ''2024-01-04'')
          three_videos)) = Some (video ''4'' ''2024-01-04'') \<and>
   getVideoBlob ''4-a''
     (snd (uploadVideo (char_quota 340) day_number data_url ''4'' ''a'' ''DDDD'' (clip ''2024-01-04'')
          three_videos)) = Some ''data:video/webm;base64,DDDD''"
proof -
  let ?up = "uploadVideo (char_quota 340) day_number data_url ''4'' ''a'' ''DDDD'' (clip ''2024-01-04'')
          three_videos"
  have fresh: "generateId ''4'' ''a'' \<notin> id_v ` set (getVideos three_videos)"
    by (simp add: three_videos_eq storage_defs sample_defs)
  have run: "?up = (Returned (video ''4'' ''2024-01-04''), snd ?up)"
    by (simp add: three_videos_eq storage_defs sample_defs Let_def)
  have idr: "id_v (video ''4'' ''2024-01-04'') = ''4-a''"
    by (simp add: video_def makeVideoData_def generateId_def)
  from uploadVideo_round_trip [OF run fresh]
  have "getVideo ''4-a'' (snd ?up) = Some (video ''4'' ''2024-01-04'')"
    and "getVideoBlob ''4-a'' (snd ?up) = data_url ''DDDD''"
    by (simp_all only: idr)
  moreover from arg_cong [OF run, of fst]
  have "fst ?up = Returned (video ''4'' ''2024-01-04'')"
    by (simp only: fst_conv)
  moreover have "data_url ''DDDD'' = Some ''data:video/webm;base64,DDDD''"
    by (simp add: data_url_def)
  ultimately show ?thesis using fresh by (simp only: simp_thms)
qed

text \<open>
  C9. When \<open>createVideo\<close> has returned the record \<open>r\<close>, the analytics record stored
  for the id of \<open>r\<close> is the zero record: no views, no completion points, average 0,
  never viewed. It is the last of the three writes of the call.
\<close>

theorem uploadVideo_zero_analytics:
  assumes "uploadVideo quota getTime blobToBase64 ms rnd file metadata s = (Returned r, s')"
  shows "id_v r = generateId ms rnd \<and>
         getAnalytics (id_v r) s' =
           Own \<lparr>videoId = id_v r, views = 0, completionData = [], averageWatchPercentage = 0,
                lastViewed = None\<rparr>"
proof -
  from uploadVideo_Returned [OF assms] obtain b s0 where
    r: "r = makeVideoData (generateId ms rnd) metadata" and
    st: "storeVideo quota r b s0 = (Returned r, s')" by blast
  from r have idr: "id_v r = generateId ms rnd" by (simp add: makeVideoData_def)
  with generateId_not_proto [of ms rnd] have "id_v r \<noteq> ''__proto__''" by simp
  from storeVideo_Returned_lookups(3) [OF st this]
  have "getAnalytics (id_v r) s' = Own (zero_analytics (id_v r))" .
  with idr show ?thesis by (simp add: zero_analytics_def)
qed

theorem uploadVideo_zero_analytics_witness:
  "fst (uploadVideo (char_quota 500) day_number data_url ''1'' ''a'' ''AAAA'' (clip ''2024-01-01'')
          empty_storage) = Returned (video ''1'' ''2024-01-01'') \<and>
   getAnalytics ''1-a''
     (snd (uploadVideo (char_quota 500) day_number data_url ''1'' ''a'' ''AAAA'' (clip ''2024-01-01'')
          empty_storage)) =
     Own \<lparr>videoId = ''1-a'', views = 0, completionData = [], averageWatchPercentage = 0,
          lastViewed = None\<rparr>"
proof -
  let ?up = "uploadVideo (char_quota 500) day_number data_url ''1'' ''a'' ''AAAA'' (clip ''2024-01-01'')
          empty_storage"
  have run: "?up = (Returned (video ''1'' ''2024-01-01''), snd ?up)"
    by (simp add: storage_defs sample_defs Let_def)
  have idr: "id_v (video ''1'' ''2024-01-01'') = ''1-a''"
    by (simp add: video_def makeVideoData_def generateId_def)
  from uploadVideo_zero_analytics [OF run, THEN conjunct2]
  have "getAnalytics ''1-a'' (snd ?up) =
     Own \<lparr>videoId = ''1-a'', views = 0, completionData = [], averageWatchPercentage = 0,
          lastViewed = None\<rparr>"
    by (simp only: idr)
  moreover from arg_cong [OF run, of fst]
  have "fst ?up = Returned (video ''1'' ''2024-01-01'')"
    by (simp only: fst_conv)
  ultimately show ?thesis by (simp only: simp_thms)
qed

section \<open>A failed upload\<close>





section \<open>Eviction\<close>


text \<open>
  A cleanup of five records of which the two oldest uploads carry a \<open>createdAt\<close> that is
  not a date: the comparator answers \<open>NaN\<close> for them, they stay in front, and the
  dated records \<open>3-a\<close> and \<open>4-a\<close> are evicted.
\<close>

lemma cleanupOldVideos_unparseable_dates:
  "fst (cleanupOldVideos (char_quota 500) day_number 3 undated_videos) = Returned () \<and>
   map id_v (getVideos (snd (cleanupOldVideos (char_quota 500) day_number 3 undated_videos))) =
     [''1-a'', ''2-a'', ''5-a''] \<and>
   map id_v (videosToDelete day_number 3 undated_videos) = [''4-a'', ''3-a'']"
  by (simp add: undated_videos_eq videosToDelete_def storage_defs sample_defs Let_def)



section \<open>The capacity error\<close>




end
